theory Spec2Isabelle
  imports Complex_Main "HOL-Library.Sublist" "HOL-Library.List_Lexorder" "HOL-Library.Char_ord"
begin

section \<open>Strings\<close>

text \<open>
  Python strings are sequences of code points. A \<^typ>\<open>char\<close> stands for a code point
  below 256 (the Latin-1 range); the classification functions below are Python's
  \<^verbatim>\<open>str.isalnum\<close>, \<^verbatim>\<open>str.isspace\<close> and \<^verbatim>\<open>str.lower\<close>
  restricted to that range.
\<close>

definition py_isupper :: "char \<Rightarrow> bool" where
  "py_isupper c = (let n = (of_char c :: nat) in
     (65 \<le> n \<and> n \<le> 90) \<or> (192 \<le> n \<and> n \<le> 214) \<or> (216 \<le> n \<and> n \<le> 222))"

definition py_isalnum :: "char \<Rightarrow> bool" where
  "py_isalnum c = (let n = (of_char c :: nat) in
     (48 \<le> n \<and> n \<le> 57) \<or> (65 \<le> n \<and> n \<le> 90) \<or> (97 \<le> n \<and> n \<le> 122) \<or>
     n = 170 \<or> n = 178 \<or> n = 179 \<or> n = 181 \<or> n = 185 \<or> n = 186 \<or>
     (188 \<le> n \<and> n \<le> 190) \<or> (192 \<le> n \<and> n \<le> 214) \<or> (216 \<le> n \<and> n \<le> 246) \<or>
     (248 \<le> n \<and> n \<le> 255))"

definition py_isspace :: "char \<Rightarrow> bool" where
  "py_isspace c = (let n = (of_char c :: nat) in
     (9 \<le> n \<and> n \<le> 13) \<or> (28 \<le> n \<and> n \<le> 32) \<or> n = 133 \<or> n = 160)"

text \<open>Lower-casing an upper-case letter of the range adds 32, that is, sets bit 5.\<close>

definition py_lower :: "char \<Rightarrow> char" where
  "py_lower c = (case c of Char b0 b1 b2 b3 b4 b5 b6 b7 \<Rightarrow>
      if py_isupper c then Char b0 b1 b2 b3 b4 True b6 b7 else c)"

definition py_strip :: "string \<Rightarrow> string" where
  "py_strip s = rev (dropWhile py_isspace (rev (dropWhile py_isspace s)))"

text \<open>\<^verbatim>\<open>sub in s\<close>\<close>

fun py_contains :: "string \<Rightarrow> string \<Rightarrow> bool" where
  "py_contains sub [] = (sub = [])"
| "py_contains sub (c # cs) = (prefix sub (c # cs) \<or> py_contains sub cs)"

text \<open>
  \<^verbatim>\<open>s.split(sep)\<close> for a non-empty separator: the pieces between the
  non-overlapping occurrences of \<open>sep\<close>, found from the left. The accumulator holds the
  current piece, reversed. (Python raises on an empty separator; the program only
  splits on the constants \<^verbatim>\<open>' '\<close>, \<^verbatim>\<open>' - '\<close> and \<^verbatim>\<open>' ('\<close>.)
\<close>

function py_split_acc :: "string \<Rightarrow> string \<Rightarrow> string \<Rightarrow> string list" where
  "py_split_acc sep acc [] = [rev acc]"
| "py_split_acc sep acc (c # cs) =
     (if sep \<noteq> [] \<and> prefix sep (c # cs)
      then rev acc # py_split_acc sep [] (drop (length sep) (c # cs))
      else py_split_acc sep (c # acc) cs)"
  by pat_completeness auto
termination
  by (relation "measure (\<lambda>(sep, acc, s). length s)") (auto simp: neq_Nil_conv)

definition py_split :: "string \<Rightarrow> string \<Rightarrow> string list" where
  "py_split sep s = py_split_acc sep [] s"

text \<open>\<^verbatim>\<open>def clean_channel_name(name)\<close>\<close>

definition clean_channel_name :: "string \<Rightarrow> string" where
  "clean_channel_name name =
     py_strip (concat (map (\<lambda>e. if py_isalnum e \<or> e = CHR ''.'' then [py_lower e] else []) name))"

section \<open>Dates and times\<close>

text \<open>
  The proleptic Gregorian calendar of Python's \<^verbatim>\<open>datetime\<close> module. The local
  time zone is a fixed offset \<open>tz\<close> (seconds east of UTC); daylight-saving changes are
  outside the model.
\<close>

record datetime =
  dt_year :: int
  dt_month :: int
  dt_day :: int
  dt_hour :: int
  dt_minute :: int
  dt_second :: int

definition is_leap :: "int \<Rightarrow> bool" where
  "is_leap y = (y mod 4 = 0 \<and> (y mod 100 \<noteq> 0 \<or> y mod 400 = 0))"

definition DAYS_IN_MONTH :: "int list" where
  "DAYS_IN_MONTH = [-1, 31, 28, 31, 30, 31, 30, 31, 31, 30, 31, 30, 31]"

definition DAYS_BEFORE_MONTH :: "int list" where
  "DAYS_BEFORE_MONTH = [-1, 0, 31, 59, 90, 120, 151, 181, 212, 243, 273, 304, 334]"

definition days_before_year :: "int \<Rightarrow> int" where
  "days_before_year year = (let y = year - 1 in y * 365 + y div 4 - y div 100 + y div 400)"

definition days_in_month :: "int \<Rightarrow> int \<Rightarrow> int" where
  "days_in_month year month =
     (if month = 2 \<and> is_leap year then 29 else DAYS_IN_MONTH ! nat month)"

definition days_before_month :: "int \<Rightarrow> int \<Rightarrow> int" where
  "days_before_month year month =
     DAYS_BEFORE_MONTH ! nat month + (if month > 2 \<and> is_leap year then 1 else 0)"

definition ymd2ord :: "int \<Rightarrow> int \<Rightarrow> int \<Rightarrow> int" where
  "ymd2ord year month day = days_before_year year + days_before_month year month + day"

definition ord2ymd :: "int \<Rightarrow> int \<times> int \<times> int" where
  "ord2ymd n0 =
     (let n = n0 - 1;
          n400 = n div 146097; na = n mod 146097;
          n100 = na div 36524; nb = na mod 36524;
          n4 = nb div 1461; nc = nb mod 1461;
          n1 = nc div 365; nd = nc mod 365;
          year = n400 * 400 + 1 + n100 * 100 + n4 * 4 + n1
      in if n1 = 4 \<or> n100 = 4 then (year - 1, 12, 31)
         else let leapyear = (n1 = 3 \<and> (n4 \<noteq> 24 \<or> n100 = 3));
                  month = (nd + 50) div 32;
                  preceding = DAYS_BEFORE_MONTH ! nat month
                                + (if month > 2 \<and> leapyear then 1 else 0)
              in if preceding > nd
                 then let month' = month - 1;
                          preceding' = preceding - (DAYS_IN_MONTH ! nat month'
                                         + (if month' = 2 \<and> leapyear then 1 else 0))
                      in (year, month', nd - preceding' + 1)
                 else (year, month, nd - preceding + 1))"

text \<open>The ordinal of 1970-01-01 and of 9999-12-31.\<close>

definition EPOCH_ORD :: int where "EPOCH_ORD = 719163"
definition MAX_ORD :: int where "MAX_ORD = 3652059"

text \<open>\<^verbatim>\<open>int(dt.timestamp())\<close> of a naive datetime, read as local time.\<close>

definition timestamp :: "int \<Rightarrow> datetime \<Rightarrow> int" where
  "timestamp tz dt =
     (ymd2ord (dt_year dt) (dt_month dt) (dt_day dt) - EPOCH_ORD) * 86400
       + dt_hour dt * 3600 + dt_minute dt * 60 + dt_second dt - tz"

text \<open>
  \<^verbatim>\<open>datetime.fromtimestamp(ts)\<close>; \<open>None\<close> stands for the exception Python raises
  when the local date falls outside the years 1 to 9999.
\<close>

definition fromtimestamp :: "int \<Rightarrow> int \<Rightarrow> datetime option" where
  "fromtimestamp tz ts =
     (let local = ts + tz; ord = local div 86400 + EPOCH_ORD; s = local mod 86400
      in if ord < 1 \<or> MAX_ORD < ord then None
         else case ord2ymd ord of (y, m, d) \<Rightarrow>
           Some \<lparr>dt_year = y, dt_month = m, dt_day = d,
                 dt_hour = s div 3600, dt_minute = s mod 3600 div 60, dt_second = s mod 60\<rparr>)"

subsection \<open>Formatting\<close>

definition digit_char :: "int \<Rightarrow> char" where
  "digit_char n = ''0123456789'' ! nat (n mod 10)"

definition pad2 :: "int \<Rightarrow> string" where
  "pad2 n = [digit_char (n div 10), digit_char n]"

definition pad4 :: "int \<Rightarrow> string" where
  "pad4 n = [digit_char (n div 1000), digit_char (n div 100), digit_char (n div 10), digit_char n]"

text \<open>
  \<^verbatim>\<open>strftime('%Y%m%d')\<close>, \<^verbatim>\<open>strftime('%d.%m.%Y')\<close> and
  \<^verbatim>\<open>strftime('%H:%M')\<close>. The year is written with four digits, as the library
  documents \<^verbatim>\<open>%Y\<close>; a C library that does not pad the years below 1000 is outside
  the model.
\<close>

definition strftime_Ymd :: "datetime \<Rightarrow> string" where
  "strftime_Ymd dt = pad4 (dt_year dt) @ pad2 (dt_month dt) @ pad2 (dt_day dt)"

definition strftime_dmY :: "datetime \<Rightarrow> string" where
  "strftime_dmY dt = pad2 (dt_day dt) @ ''.'' @ pad2 (dt_month dt) @ ''.'' @ pad4 (dt_year dt)"

definition strftime_HM :: "datetime \<Rightarrow> string" where
  "strftime_HM dt = pad2 (dt_hour dt) @ '':'' @ pad2 (dt_minute dt)"

subsection \<open>Parsing\<close>

text \<open>
  \<^verbatim>\<open>datetime.strptime\<close> turns the format into a regular expression, takes the first
  match of it at the start of the string (alternatives tried in order, with
  backtracking), and raises \<^verbatim>\<open>ValueError\<close> unless the match ends where the string
  ends and the fields form a valid datetime. Each directive below lists its matches,
  as the value read and the rest of the string, in the order the regular expression
  tries them.
\<close>

definition digit_val :: "char \<Rightarrow> int option" where
  "digit_val c = (let n = (of_char c :: nat) in
     if 48 \<le> n \<and> n \<le> 57 then Some (int n - 48) else None)"

fun one_digit :: "(int \<Rightarrow> bool) \<Rightarrow> string \<Rightarrow> (int \<times> string) list" where
  "one_digit P (a # r) =
     (case digit_val a of Some x \<Rightarrow> if P x then [(x, r)] else [] | None \<Rightarrow> [])"
| "one_digit P [] = []"

fun two_digits :: "(int \<Rightarrow> int \<Rightarrow> bool) \<Rightarrow> string \<Rightarrow> (int \<times> string) list" where
  "two_digits P (a # b # r) =
     (case (digit_val a, digit_val b) of
        (Some x, Some y) \<Rightarrow> if P x y then [(10 * x + y, r)] else []
      | _ \<Rightarrow> [])"
| "two_digits P _ = []"

text \<open>\<^verbatim>\<open>%Y\<close> is \<^verbatim>\<open>\d\d\d\d\<close>\<close>

fun re_Y :: "string \<Rightarrow> (int \<times> string) list" where
  "re_Y (a # b # c # d # r) =
     (case (digit_val a, digit_val b, digit_val c, digit_val d) of
        (Some w, Some x, Some y, Some z) \<Rightarrow> [(1000 * w + 100 * x + 10 * y + z, r)]
      | _ \<Rightarrow> [])"
| "re_Y _ = []"

text \<open>\<^verbatim>\<open>%m\<close> is \<^verbatim>\<open>1[0-2]|0[1-9]|[1-9]\<close>\<close>

definition re_m :: "string \<Rightarrow> (int \<times> string) list" where
  "re_m s = two_digits (\<lambda>x y. x = 1 \<and> y \<le> 2) s @ two_digits (\<lambda>x y. x = 0 \<and> 1 \<le> y) s
            @ one_digit (\<lambda>x. 1 \<le> x) s"

text \<open>\<^verbatim>\<open>%d\<close> is \<^verbatim>\<open>3[0-1]|[1-2]\d|0[1-9]|[1-9]| [1-9]\<close>\<close>

definition re_d :: "string \<Rightarrow> (int \<times> string) list" where
  "re_d s = two_digits (\<lambda>x y. x = 3 \<and> y \<le> 1) s @ two_digits (\<lambda>x y. x = 1 \<or> x = 2) s
            @ two_digits (\<lambda>x y. x = 0 \<and> 1 \<le> y) s @ one_digit (\<lambda>x. 1 \<le> x) s
            @ (case s of a # r \<Rightarrow> if a = CHR '' '' then one_digit (\<lambda>x. 1 \<le> x) r else []
               | [] \<Rightarrow> [])"

text \<open>\<^verbatim>\<open>%H\<close> is \<^verbatim>\<open>2[0-3]|[0-1]\d|\d\<close>\<close>

definition re_H :: "string \<Rightarrow> (int \<times> string) list" where
  "re_H s = two_digits (\<lambda>x y. x = 2 \<and> y \<le> 3) s @ two_digits (\<lambda>x y. x \<le> 1) s
            @ one_digit (\<lambda>x. True) s"

text \<open>\<^verbatim>\<open>%M\<close> is \<^verbatim>\<open>[0-5]\d|\d\<close>\<close>

definition re_M :: "string \<Rightarrow> (int \<times> string) list" where
  "re_M s = two_digits (\<lambda>x y. x \<le> 5) s @ one_digit (\<lambda>x. True) s"

text \<open>\<^verbatim>\<open>%S\<close> is \<^verbatim>\<open>6[0-1]|[0-5]\d|\d\<close>\<close>

definition re_S :: "string \<Rightarrow> (int \<times> string) list" where
  "re_S s = two_digits (\<lambda>x y. x = 6 \<and> y \<le> 1) s @ two_digits (\<lambda>x y. x \<le> 5) s
            @ one_digit (\<lambda>x. True) s"

text \<open>A literal character of the format.\<close>

fun re_lit :: "char \<Rightarrow> string \<Rightarrow> string list" where
  "re_lit c (a # r) = (if a = c then [r] else [])"
| "re_lit c [] = []"

text \<open>A space of the format is \<^verbatim>\<open>\s+\<close>: greedy, so the longest run is tried first.\<close>

definition re_spaces :: "string \<Rightarrow> string list" where
  "re_spaces s = map (\<lambda>k. drop k s) (rev [1 ..< Suc (length (takeWhile py_isspace s))])"

text \<open>The checks of the \<^verbatim>\<open>datetime\<close> constructor.\<close>

definition valid_datetime :: "datetime \<Rightarrow> bool" where
  "valid_datetime dt =
     (1 \<le> dt_year dt \<and> dt_year dt \<le> 9999 \<and> 1 \<le> dt_month dt \<and> dt_month dt \<le> 12 \<and>
      1 \<le> dt_day dt \<and> dt_day dt \<le> days_in_month (dt_year dt) (dt_month dt) \<and>
      0 \<le> dt_hour dt \<and> dt_hour dt \<le> 23 \<and> 0 \<le> dt_minute dt \<and> dt_minute dt \<le> 59 \<and>
      0 \<le> dt_second dt \<and> dt_second dt \<le> 59)"

definition finish_match :: "(datetime \<times> string) list \<Rightarrow> datetime option" where
  "finish_match ms =
     (case ms of [] \<Rightarrow> None
      | (dt, rest) # _ \<Rightarrow> if rest = [] \<and> valid_datetime dt then Some dt else None)"

text \<open>\<^verbatim>\<open>datetime.strptime(s, '%Y%m%d%H%M%S')\<close>; \<open>None\<close> is \<^verbatim>\<open>ValueError\<close>.\<close>

definition strptime_YmdHMS :: "string \<Rightarrow> datetime option" where
  "strptime_YmdHMS s = finish_match
     (concat (map (\<lambda>(y, r1). concat (map (\<lambda>(m, r2). concat (map (\<lambda>(d, r3).
        concat (map (\<lambda>(H, r4). concat (map (\<lambda>(M, r5). map (\<lambda>(S, r6).
          (\<lparr>dt_year = y, dt_month = m, dt_day = d,
            dt_hour = H, dt_minute = M, dt_second = S\<rparr>, r6))
        (re_S r5)) (re_M r4))) (re_H r3))) (re_d r2))) (re_m r1))) (re_Y s)))"

text \<open>\<^verbatim>\<open>datetime.strptime(s, '%Y%m%d')\<close>\<close>

definition strptime_Ymd :: "string \<Rightarrow> datetime option" where
  "strptime_Ymd s = finish_match
     (concat (map (\<lambda>(y, r1). concat (map (\<lambda>(m, r2). map (\<lambda>(d, r3).
          (\<lparr>dt_year = y, dt_month = m, dt_day = d,
            dt_hour = 0, dt_minute = 0, dt_second = 0\<rparr>, r3))
        (re_d r2)) (re_m r1))) (re_Y s)))"

text \<open>\<^verbatim>\<open>datetime.strptime(s, '%d.%m.%Y %H:%M')\<close>\<close>

definition strptime_dmY_HM :: "string \<Rightarrow> datetime option" where
  "strptime_dmY_HM s = finish_match
     (concat (map (\<lambda>(d, r1). concat (map (\<lambda>r2. concat (map (\<lambda>(m, r3).
        concat (map (\<lambda>r4. concat (map (\<lambda>(y, r5). concat (map (\<lambda>r6.
          concat (map (\<lambda>(H, r7). concat (map (\<lambda>r8. map (\<lambda>(M, r9).
            (\<lparr>dt_year = y, dt_month = m, dt_day = d,
              dt_hour = H, dt_minute = M, dt_second = 0\<rparr>, r9))
          (re_M r8)) (re_lit (CHR '':'') r7))) (re_H r6))) (re_spaces r5))) (re_Y r4)))
        (re_lit (CHR ''.'') r3))) (re_m r2))) (re_lit (CHR ''.'') r1))) (re_d s)))"

section \<open>The parser\<close>

text \<open>
  The XML library hands \<^verbatim>\<open>parseXMLData\<close> the \<^verbatim>\<open>channel\<close> and
  \<^verbatim>\<open>programme\<close> elements of the document. An element is modelled by what the
  program reads of it: its attributes (\<open>None\<close> when absent) and, for each child
  element it looks up, the first child of that name: \<open>None\<close> when there is no such
  child, \<open>Some None\<close> when the child has no text, \<open>Some (Some t)\<close> when its text is
  \<open>t\<close>. For \<^verbatim>\<open>icon\<close> the inner option is the \<^verbatim>\<open>src\<close> attribute.
\<close>

record xml_channel =
  xc_id :: "string option"
  xc_display_name :: "string option option"
  xc_icon :: "string option option"

record xml_programme =
  xp_channel :: "string option"
  xp_start :: "string option"
  xp_stop :: "string option"
  xp_title :: "string option option"
  xp_desc :: "string option option"
  xp_category :: "string option option"
  xp_icon :: "string option option"

text \<open>The dictionaries stored in \<^verbatim>\<open>self.channelData\<close> and \<^verbatim>\<open>self.epgData\<close>.\<close>

record channel =
  ch_id :: string
  ch_title :: string
  ch_alias :: string
  ch_logo :: string
  ch_icon :: "string option"

record programme =
  title :: string
  desc :: string
  category :: string
  icon :: "string option"
  stop_timestamp :: "int option"
  start_timestamp :: int
  start_date :: string

record plugin_state =
  channelData :: "channel list"
  epgData :: "string \<rightharpoonup> programme list"

datatype exn = AttributeError | IndexError | KeyError | ValueError

text \<open>
  A \<^verbatim>\<open>for\<close> loop whose body may raise: the loop stops at the first exception, and
  the state is what the earlier iterations left.
\<close>

fun for_each :: "('a \<Rightarrow> 's \<Rightarrow> exn + 's) \<Rightarrow> 'a list \<Rightarrow> 's \<Rightarrow> (exn \<times> 's) + 's" where
  "for_each body [] st = Inr st"
| "for_each body (x # xs) st =
     (case body x st of Inl e \<Rightarrow> Inl (e, st) | Inr st' \<Rightarrow> for_each body xs st')"

text \<open>Truth value of an attribute: \<^verbatim>\<open>None\<close> and the empty string are false.\<close>

definition truthy :: "string option \<Rightarrow> bool" where
  "truthy a = (case a of Some (c # cs) \<Rightarrow> True | _ \<Rightarrow> False)"

text \<open>\<^verbatim>\<open>el.xpath('name[1]/text()')\<close> and \<^verbatim>\<open>el.xpath('icon[1]/@src')\<close> of lxml\<close>

definition xpath_first :: "string option option \<Rightarrow> string list" where
  "xpath_first el = (case el of Some (Some t) \<Rightarrow> [t] | _ \<Rightarrow> [])"

text \<open>
  \<^verbatim>\<open>channel_name\<close>: \<^verbatim>\<open>display_name.text.strip()\<close> with ElementTree,
  \<^verbatim>\<open>display_name[0].strip()\<close> with lxml.
\<close>

definition channel_name_of :: "bool \<Rightarrow> string option option \<Rightarrow> exn + string" where
  "channel_name_of lxml el =
     (if \<not> lxml
      then (case el of Some (Some t) \<Rightarrow> Inr (py_strip t) | _ \<Rightarrow> Inl AttributeError)
      else (case xpath_first el of t # _ \<Rightarrow> Inr (py_strip t) | [] \<Rightarrow> Inl IndexError))"

definition icon_of :: "bool \<Rightarrow> string option option \<Rightarrow> string option" where
  "icon_of lxml el =
     (if el \<noteq> None \<and> \<not> lxml then (case el of Some a \<Rightarrow> a | None \<Rightarrow> None)
      else (if lxml then (case xpath_first el of v # _ \<Rightarrow> Some v | [] \<Rightarrow> None) else None))"

text \<open>The body of \<^verbatim>\<open>for channel in channel_iter\<close>.\<close>

definition parse_channel :: "bool \<Rightarrow> xml_channel \<Rightarrow> plugin_state \<Rightarrow> exn + plugin_state" where
  "parse_channel lxml c st =
     (if \<not> truthy (xc_id c) \<or> (\<not> lxml \<and> xc_display_name c = None) then Inr st
      else case xc_id c of None \<Rightarrow> Inr st
      | Some channel_id \<Rightarrow>
        (case channel_name_of lxml (xc_display_name c) of
           Inl e \<Rightarrow> Inl e
         | Inr channel_name \<Rightarrow>
             Inr (st\<lparr>channelData := channelData st @
                       [\<lparr>ch_id = channel_id, ch_title = channel_name,
                         ch_alias = clean_channel_name channel_name,
                         ch_logo = clean_channel_name channel_name @ ''.png'',
                         ch_icon = icon_of lxml (xc_icon c)\<rparr>],
                     epgData := (epgData st)(channel_name \<mapsto> [])\<rparr>)))"

text \<open>The four fields of \<^verbatim>\<open>program_data\<close> read from the child elements.\<close>

definition title_of :: "bool \<Rightarrow> string option option \<Rightarrow> exn + string" where
  "title_of lxml el =
     (if \<not> lxml
      then (case el of Some (Some t) \<Rightarrow> Inr (py_strip t) | _ \<Rightarrow> Inl AttributeError)
      else (case xpath_first el of t # _ \<Rightarrow> Inr (py_strip t) | [] \<Rightarrow> Inr ''Nepoznat naslov''))"

definition text_or :: "bool \<Rightarrow> string option option \<Rightarrow> string \<Rightarrow> exn + string" where
  "text_or lxml el dflt =
     (if el \<noteq> None \<and> \<not> lxml
      then (case el of Some (Some t) \<Rightarrow> Inr (py_strip t) | _ \<Rightarrow> Inl AttributeError)
      else (if lxml then (case xpath_first el of t # _ \<Rightarrow> Inr (py_strip t) | [] \<Rightarrow> Inr dflt)
            else Inr dflt))"

text \<open>\<^verbatim>\<open>s.split(' ')[0]\<close>; the list that \<^verbatim>\<open>split\<close> returns is never empty.\<close>

definition first_piece :: "string \<Rightarrow> string" where
  "first_piece s = (case py_split '' '' s of x # _ \<Rightarrow> x | [] \<Rightarrow> [])"

text \<open>
  The \<^verbatim>\<open>try\<close> block of the programme loop: \<open>None\<close> is the \<^verbatim>\<open>ValueError\<close> of
  \<^verbatim>\<open>strptime\<close>, raised for the start time or for a non-empty stop time. The result
  is \<^verbatim>\<open>start_timestamp\<close>, \<^verbatim>\<open>stop_timestamp\<close> and \<^verbatim>\<open>start_date\<close>.
\<close>

definition parse_times :: "int \<Rightarrow> string \<Rightarrow> string option \<Rightarrow> (int \<times> int option \<times> string) option" where
  "parse_times tz start_time stop_time =
     (case strptime_YmdHMS (first_piece start_time) of
        None \<Rightarrow> None
      | Some time_obj \<Rightarrow>
          (if truthy stop_time
           then (case stop_time of None \<Rightarrow> None
                 | Some stop \<Rightarrow>
                   (case strptime_YmdHMS (first_piece stop) of
                      None \<Rightarrow> None
                    | Some stop_time_obj \<Rightarrow>
                        Some (timestamp tz time_obj, Some (timestamp tz stop_time_obj),
                              strftime_Ymd time_obj)))
           else Some (timestamp tz time_obj, None, strftime_Ymd time_obj)))"

text \<open>
  The body of \<^verbatim>\<open>for program in program_iter\<close>, up to the
  \<^verbatim>\<open>append\<close>: it reads \<^verbatim>\<open>self.channelData\<close> only. \<open>Inr None\<close> is
  a \<^verbatim>\<open>continue\<close>; \<open>Inr (Some (channel_name, program_data))\<close> reaches the
  \<^verbatim>\<open>append\<close> with these values; \<open>Inl\<close> is an exception that is not handled in
  the loop.
\<close>

definition read_programme ::
  "int \<Rightarrow> bool \<Rightarrow> channel list \<Rightarrow> xml_programme \<Rightarrow> exn + (string \<times> programme) option" where
  "read_programme tz lxml chans p =
     (if \<not> (truthy (xp_channel p) \<and> truthy (xp_start p) \<and>
             (if \<not> lxml then xp_title p \<noteq> None else xpath_first (xp_title p) \<noteq> []))
      then Inr None
      else case find (\<lambda>ch. Some (ch_id ch) = xp_channel p) chans of
        None \<Rightarrow> Inr None
      | Some ch \<Rightarrow>
        (case title_of lxml (xp_title p) of Inl e \<Rightarrow> Inl e
         | Inr t \<Rightarrow>
        (case text_or lxml (xp_desc p) ''Nema opisa'' of Inl e \<Rightarrow> Inl e
         | Inr d \<Rightarrow>
        (case text_or lxml (xp_category p) [] of Inl e \<Rightarrow> Inl e
         | Inr c \<Rightarrow>
        (case xp_start p of None \<Rightarrow> Inr None
         | Some start_time \<Rightarrow>
        (case parse_times tz start_time (xp_stop p) of
           None \<Rightarrow> Inr None
         | Some (start_ts, stop_ts, date) \<Rightarrow>
             Inr (Some (ch_title ch,
                    \<lparr>title = t, desc = d, category = c,
                      icon = icon_of lxml (xp_icon p),
                      stop_timestamp = stop_ts, start_timestamp = start_ts,
                      start_date = date\<rparr>))))))))"

text \<open>The whole body: \<^verbatim>\<open>self.epgData[channel_name].append(program_data)\<close> at the end.\<close>

definition parse_programme ::
  "int \<Rightarrow> bool \<Rightarrow> xml_programme \<Rightarrow> plugin_state \<Rightarrow> exn + plugin_state" where
  "parse_programme tz lxml p st =
     (case read_programme tz lxml (channelData st) p of
        Inl e \<Rightarrow> Inl e
      | Inr None \<Rightarrow> Inr st
      | Inr (Some (channel_name, program_data)) \<Rightarrow>
          (case epgData st channel_name of
             None \<Rightarrow> Inl KeyError
           | Some progs \<Rightarrow>
               Inr (st\<lparr>epgData := (epgData st)(channel_name \<mapsto> progs @ [program_data])\<rparr>)))"

text \<open>
  \<^verbatim>\<open>parseXMLData\<close>, from the element lists on (the XML library has read the
  document). \<open>lxml\<close> is the flag \<^verbatim>\<open>LXML_AVAILABLE\<close>. Any exception other than the
  \<^verbatim>\<open>ValueError\<close> handled in the programme loop ends the pass in the outer handler,
  with the state as it is then. The call of \<^verbatim>\<open>updateEPGAndPicon\<close> that ends a completed
  pass is modelled on its own, below.
\<close>

datatype parse_status = Parsed | No_channels | Parse_error exn

definition parseXMLData ::
  "int \<Rightarrow> bool \<Rightarrow> xml_channel list \<Rightarrow> xml_programme list \<Rightarrow> parse_status \<times> plugin_state" where
  "parseXMLData tz lxml channel_iter program_iter =
     (case for_each (parse_channel lxml) channel_iter \<lparr>channelData = [], epgData = Map.empty\<rparr> of
        Inl (e, st) \<Rightarrow> (Parse_error e, st)
      | Inr st \<Rightarrow>
          if channelData st = [] then (No_channels, st)
          else (case for_each (parse_programme tz lxml) program_iter st of
                  Inl (e, st') \<Rightarrow> (Parse_error e, st')
                | Inr st' \<Rightarrow> (Parsed, st')))"

section \<open>The indexer\<close>

text \<open>
  The entry of one programme, built in the \<^verbatim>\<open>try\<close> block of
  \<^verbatim>\<open>getEPGFromData\<close>; \<open>None\<close> is the \<^verbatim>\<open>ValueError\<close> handled there, after
  which the programme is left out.
\<close>

definition entry_of :: "int \<Rightarrow> programme \<Rightarrow> string option" where
  "entry_of tz program =
     (case fromtimestamp tz (start_timestamp program) of
        None \<Rightarrow> None
      | Some dt \<Rightarrow>
          Some (strftime_HM dt @ '' - '' @ title program @ '' ('' @ category program @ '')''
                @ (if desc program \<noteq> [] then [CHR 0x0A] @ ''  '' @ desc program else [])))"

text \<open>
  \<^verbatim>\<open>epg_by_date\<close> is a dictionary from date strings to lists of entries; it is kept
  as an association list in insertion order.
\<close>

definition add_entry ::
  "string \<Rightarrow> string \<Rightarrow> (string \<times> string list) list \<Rightarrow> (string \<times> string list) list" where
  "add_entry date_str entry m =
     (let m' = (if date_str \<notin> set (map fst m) then m @ [(date_str, [])] else m)
      in map (\<lambda>(k, v). if k = date_str then (k, v @ [entry]) else (k, v)) m')"

definition group_step ::
  "int \<Rightarrow> programme \<Rightarrow> (string \<times> string list) list \<Rightarrow> (string \<times> string list) list" where
  "group_step tz program m =
     (case entry_of tz program of None \<Rightarrow> m
      | Some entry \<Rightarrow> add_entry (start_date program) entry m)"

text \<open>
  The second loop, over the sorted keys. \<^verbatim>\<open>strptime\<close> is outside any
  \<^verbatim>\<open>try\<close> here, so its \<^verbatim>\<open>ValueError\<close> leaves the function.
\<close>

fun emit_blocks :: "(string \<times> string list) list \<Rightarrow> string list \<Rightarrow> exn + string list" where
  "emit_blocks m [] = Inr []"
| "emit_blocks m (date_str # ds) =
     (case strptime_Ymd date_str of
        None \<Rightarrow> Inl ValueError
      | Some dt \<Rightarrow>
          (case map_of m date_str of
             None \<Rightarrow> Inl KeyError
           | Some entries \<Rightarrow>
               (case emit_blocks m ds of
                  Inl e \<Rightarrow> Inl e
                | Inr rest \<Rightarrow> Inr ((''--- '' @ strftime_dmY dt @ '' ---'') # entries @ rest))))"

definition get_or_empty :: "(string \<rightharpoonup> programme list) \<Rightarrow> string \<Rightarrow> programme list" where
  "get_or_empty epg channel_name = (case epg channel_name of None \<Rightarrow> [] | Some l \<Rightarrow> l)"

definition getEPGFromData ::
  "int \<Rightarrow> (string \<rightharpoonup> programme list) \<Rightarrow> string \<Rightarrow> exn + string list" where
  "getEPGFromData tz epg channel_name =
     (let epglist = get_or_empty epg channel_name
      in if epglist = [] then Inr [''No EPG data for channel: '' @ channel_name]
         else let epg_by_date = fold (group_step tz) (sort_key start_timestamp epglist) []
              in case emit_blocks epg_by_date (sort (map fst epg_by_date)) of
                   Inl e \<Rightarrow> Inl e
                 | Inr result \<Rightarrow>
                     if result = [] then Inr [''No valid EPG data for channel: '' @ channel_name]
                     else Inr result)"

section \<open>The current-programme resolver\<close>

text \<open>
  The first loop of \<^verbatim>\<open>updateEPGAndPicon\<close>. The state is
  \<^verbatim>\<open>(min_time_diff, current_program)\<close>; \<open>None\<close> in the first component is
  \<^verbatim>\<open>float('inf')\<close>. \<^verbatim>\<open>now\<close> is Python's \<^verbatim>\<open>time.time()\<close>, a number of seconds
  with a fraction. In \<^verbatim>\<open>if stop_time and ...\<close> both \<^verbatim>\<open>None\<close> and \<open>0\<close> are false.
\<close>

definition is_active :: "real \<Rightarrow> string \<Rightarrow> programme \<Rightarrow> bool" where
  "is_active now current_date program =
     (case stop_timestamp program of
        None \<Rightarrow> False
      | Some stop_time \<Rightarrow>
          stop_time \<noteq> 0 \<and> start_date program = current_date \<and>
          real_of_int (start_timestamp program) \<le> now \<and> now \<le> real_of_int stop_time)"

definition active_step ::
  "real \<Rightarrow> string \<Rightarrow> programme \<Rightarrow> real option \<times> programme option
     \<Rightarrow> real option \<times> programme option" where
  "active_step now current_date program acc =
     (case acc of (min_time_diff, current_program) \<Rightarrow>
        if is_active now current_date program
        then let time_diff = \<bar>now - real_of_int (start_timestamp program)\<bar>
             in if (case min_time_diff of None \<Rightarrow> True | Some m \<Rightarrow> time_diff < m)
                then (Some time_diff, Some program)
                else (min_time_diff, current_program)
        else (min_time_diff, current_program))"

definition find_current :: "real \<Rightarrow> string \<Rightarrow> programme list \<Rightarrow> programme option" where
  "find_current now current_date epglist =
     snd (fold (active_step now current_date) (sort_key start_timestamp epglist) (None, None))"

text \<open>The two \<^verbatim>\<open>continue\<close> tests at the head of each loop over the lines.\<close>

definition skip_line :: "string \<Rightarrow> bool" where
  "skip_line line =
     ((prefix ''---'' line \<or> py_contains ''No EPG data'' line
         \<or> py_contains ''No valid EPG data'' line)
      \<or> \<not> py_contains '' - '' line)"

text \<open>
  The \<^verbatim>\<open>try\<close> block of the loops that look for the line of a programme: true when
  the loop assigns \<^verbatim>\<open>current_index\<close> at this line. An \<^verbatim>\<open>IndexError\<close> or
  \<^verbatim>\<open>ValueError\<close> inside the block moves on to the next line.
\<close>

definition line_time :: "int \<Rightarrow> programme \<Rightarrow> string \<Rightarrow> int option" where
  "line_time tz program time_str =
     (case fromtimestamp tz (start_timestamp program) of
        None \<Rightarrow> None
      | Some dt \<Rightarrow>
          map_option (timestamp tz) (strptime_dmY_HM (strftime_dmY dt @ '' '' @ time_str)))"

text \<open>
  \<^verbatim>\<open>line.split(" - ")[0]\<close> and \<^verbatim>\<open>line.split(" - ")[1].split(" (")[0]\<close>;
  \<open>None\<close> is \<^verbatim>\<open>IndexError\<close>.
\<close>

definition line_time_str :: "string \<Rightarrow> string option" where
  "line_time_str line = (case py_split '' - '' line of time_str # _ \<Rightarrow> Some time_str | [] \<Rightarrow> None)"

definition line_title :: "string \<Rightarrow> string option" where
  "line_title line =
     (case py_split '' - '' line of
        _ # rest # _ \<Rightarrow> (case py_split '' ('' rest of t # _ \<Rightarrow> Some t | [] \<Rightarrow> None)
      | _ \<Rightarrow> None)"

definition line_matches :: "int \<Rightarrow> programme \<Rightarrow> string \<Rightarrow> bool" where
  "line_matches tz program line =
     (if skip_line line then False
      else case line_time_str line of
        None \<Rightarrow> False
      | Some time_str \<Rightarrow>
          (case line_title line of
             None \<Rightarrow> False
           | Some t \<Rightarrow>
               if t = title program
               then (case line_time tz program time_str of
                       None \<Rightarrow> False
                     | Some lt \<Rightarrow> \<bar>lt - start_timestamp program\<bar> < 60)
               else False))"

text \<open>\<^verbatim>\<open>for i, line in enumerate(lines): if ...: current_index = i; break\<close>\<close>

definition first_index :: "(string \<Rightarrow> bool) \<Rightarrow> string list \<Rightarrow> nat option" where
  "first_index P lines = map_option fst (find (\<lambda>(i, line). P line) (enumerate 0 lines))"

text \<open>\<^verbatim>\<open>for i, line in reversed(list(enumerate(lines))): ...\<close>\<close>

definition last_index :: "(string \<Rightarrow> bool) \<Rightarrow> string list \<Rightarrow> nat option" where
  "last_index P lines = map_option fst (find (\<lambda>(i, line). P line) (rev (enumerate 0 lines)))"

text \<open>\<^verbatim>\<open>min(xs, key=f)\<close> of a non-empty list: the first element with the least key.\<close>

fun min_by :: "('a \<Rightarrow> int) \<Rightarrow> 'a \<Rightarrow> 'a list \<Rightarrow> 'a" where
  "min_by f best [] = best"
| "min_by f best (x # xs) = min_by f (if f x < f best then x else best) xs"

text \<open>
  The active-match step: the first loop, then, if it found a programme, the search for
  its line. \<open>Some i\<close> when \<^verbatim>\<open>found_current\<close> is set, with \<^verbatim>\<open>current_index = i\<close>.
\<close>

definition active_match ::
  "int \<Rightarrow> programme list \<Rightarrow> real \<Rightarrow> string \<Rightarrow> string list \<Rightarrow> nat option" where
  "active_match tz epglist now current_date lines =
     (case find_current now current_date epglist of
        None \<Rightarrow> None
      | Some current_program \<Rightarrow> first_index (line_matches tz current_program) lines)"

text \<open>\<^verbatim>\<open>[p for p in ... if p['start_date'] >= current_date]\<close>, a comparison of strings.\<close>

definition future_programs :: "string \<Rightarrow> programme list \<Rightarrow> programme list" where
  "future_programs current_date epglist = filter (\<lambda>p. start_date p \<ge> current_date) epglist"

text \<open>
  The cursor computation of \<^verbatim>\<open>updateEPGAndPicon\<close>, from
  \<^verbatim>\<open>current_index = 0\<close> to \<^verbatim>\<open>self.epgScrollPos = current_index\<close>.
  \<open>current_date\<close> is \<^verbatim>\<open>datetime.datetime.now().strftime('%Y%m%d')\<close>.
\<close>

definition resolve_index ::
  "int \<Rightarrow> programme list \<Rightarrow> real \<Rightarrow> string \<Rightarrow> string list \<Rightarrow> nat" where
  "resolve_index tz epglist now current_date lines =
     (let current_index = 0
      in case active_match tz epglist now current_date lines of
           Some i \<Rightarrow> i
         | None \<Rightarrow>
             (case future_programs current_date epglist of
                first # others \<Rightarrow>
                  (case first_index (line_matches tz (min_by start_timestamp first others)) lines of
                     Some i \<Rightarrow> i
                   | None \<Rightarrow> current_index)
              | [] \<Rightarrow>
                  (case last_index (\<lambda>line. \<not> skip_line line) lines of
                     Some i \<Rightarrow> i
                   | None \<Rightarrow> current_index)))"

text \<open>
  \<^verbatim>\<open>updateEPGAndPicon\<close> for a selected channel: the lines shown and the value
  assigned to \<^verbatim>\<open>self.epgScrollPos\<close> (\<open>None\<close> when the assignment is not reached).
\<close>

definition updateEPGAndPicon ::
  "int \<Rightarrow> (string \<rightharpoonup> programme list) \<Rightarrow> string \<Rightarrow> real \<Rightarrow> string
     \<Rightarrow> exn + (string list \<times> nat option)" where
  "updateEPGAndPicon tz epg channel_name now current_date =
     (case getEPGFromData tz epg channel_name of
        Inl e \<Rightarrow> Inl e
      | Inr epgLines \<Rightarrow>
          if epgLines \<noteq> []
          then Inr (epgLines,
                    Some (resolve_index tz (get_or_empty epg channel_name) now current_date epgLines))
          else Inr (epgLines, None))"

section \<open>The fetcher\<close>










section \<open>Notions used to state the properties\<close>

subsection \<open>The index after a pass\<close>

text \<open>
  The records that the programme loop appends under the channel title \<open>t\<close>, in document
  order: those of the elements that reach the \<^verbatim>\<open>append\<close> with that title.
\<close>

definition records_for ::
  "int \<Rightarrow> bool \<Rightarrow> channel list \<Rightarrow> string \<Rightarrow> xml_programme list \<Rightarrow> programme list" where
  "records_for tz lxml chans t ps =
     concat (map (\<lambda>p. case read_programme tz lxml chans p of
                         Inr (Some (n, r)) \<Rightarrow> if n = t then [r] else []
                       | _ \<Rightarrow> []) ps)"

text \<open>
  After the channel loop every title of \<^verbatim>\<open>channelData\<close> is a key of
  \<^verbatim>\<open>epgData\<close>, with the empty list, and there is no other key.
\<close>

definition index_fresh :: "plugin_state \<Rightarrow> bool" where
  "index_fresh st =
     (\<forall>t. epgData st t = (if t \<in> ch_title ` set (channelData st) then Some [] else None))"

subsection \<open>Display blocks\<close>

text \<open>
  The entries of the programmes of \<open>ps\<close> that start on the date \<open>d\<close>, in the order of \<open>ps\<close>.
\<close>

definition entries_on :: "int \<Rightarrow> string \<Rightarrow> programme list \<Rightarrow> string list" where
  "entries_on tz d ps =
     List.map_filter (\<lambda>p. if start_date p = d then entry_of tz p else None) ps"

text \<open>
  The list stored under a key of \<^verbatim>\<open>epg_by_date\<close>, empty when the key is missing.
\<close>

definition lookup_entries :: "(string \<times> string list) list \<Rightarrow> string \<Rightarrow> string list" where
  "lookup_entries m k = (case map_of m k of None \<Rightarrow> [] | Some v \<Rightarrow> v)"

text \<open>
  The date-separator line.
\<close>

definition separator_line :: "datetime \<Rightarrow> string" where
  "separator_line dt = ''--- '' @ strftime_dmY dt @ '' ---''"

text \<open>
  The programmes for which the \<^verbatim>\<open>try\<close> block of \<^verbatim>\<open>getEPGFromData\<close> builds an entry.
\<close>

definition renderable :: "int \<Rightarrow> programme \<Rightarrow> bool" where
  "renderable tz p = (entry_of tz p \<noteq> None)"

text \<open>
  The keys of \<^verbatim>\<open>epg_by_date\<close>, sorted: the start dates of the renderable programmes.
\<close>

definition date_keys :: "int \<Rightarrow> programme list \<Rightarrow> string list" where
  "date_keys tz ps = sort (remdups (map start_date (filter (renderable tz) ps)))"

text \<open>
  The blocks of the display, as the specification describes them: one per date, in ascending
  order of the date strings, each with the programmes of that date in the order of the sort
  by start timestamp.
\<close>

definition display_blocks :: "int \<Rightarrow> programme list \<Rightarrow> (string \<times> programme list) list" where
  "display_blocks tz ps =
     map (\<lambda>d. (d, filter (\<lambda>p. start_date p = d \<and> renderable tz p)
                      (sort_key start_timestamp ps)))
         (date_keys tz ps)"

text \<open>
  The lines of one block: the separator, then the entries.
\<close>

definition render_block :: "int \<Rightarrow> string \<times> programme list \<Rightarrow> string list" where
  "render_block tz b =
     (case strptime_Ymd (fst b) of
        None \<Rightarrow> []
      | Some dt \<Rightarrow> separator_line dt # List.map_filter (entry_of tz) (snd b))"





text \<open>
  The invariant of the first loop of the resolver, after the programmes of \<open>S\<close>: no
  programme is held when none of them is active; otherwise the one held is active, the
  distance held is its distance from \<^verbatim>\<open>now\<close>, and no active programme of \<open>S\<close> is
  nearer.
\<close>

definition best_so_far ::
  "real \<Rightarrow> string \<Rightarrow> programme set \<Rightarrow> real option \<times> programme option \<Rightarrow> bool" where
  "best_so_far now current_date S acc =
     (case acc of
        (None, None) \<Rightarrow> \<forall>q \<in> S. \<not> is_active now current_date q
      | (Some m, Some c) \<Rightarrow>
          c \<in> S \<and> is_active now current_date c
          \<and> m = \<bar>now - real_of_int (start_timestamp c)\<bar>
          \<and> (\<forall>q \<in> S. is_active now current_date q
                 \<longrightarrow> m \<le> \<bar>now - real_of_int (start_timestamp q)\<bar>)
      | _ \<Rightarrow> False)"

section \<open>Properties of the channel alias\<close>












section \<open>Properties of the parser\<close>

lemma for_each_append:
  "for_each body (xs @ ys) st =
     (case for_each body xs st of Inl e \<Rightarrow> Inl e | Inr st' \<Rightarrow> for_each body ys st')"
  by (induction xs arbitrary: st) (auto split: sum.splits)

lemma read_programme_no_start:
  "\<not> truthy (xp_start p) \<Longrightarrow> read_programme tz lxml chans p = Inr None"
  by (simp add: read_programme_def)

lemma parse_programme_skip:
  "read_programme tz lxml (channelData st) p = Inr None \<Longrightarrow> parse_programme tz lxml p st = Inr st"
  by (simp add: parse_programme_def)

lemma for_each_skip:
  assumes "\<And>st. body x st = Inr st"
  shows "for_each body (xs @ x # ys) st = for_each body (xs @ ys) st"
  by (simp add: for_each_append assms split: sum.splits)

lemma parse_programme_cases:
  assumes "parse_programme tz lxml p st = Inr st'"
  shows "(read_programme tz lxml (channelData st) p = Inr None \<and> st' = st) \<or>
         (\<exists>n r progs. read_programme tz lxml (channelData st) p = Inr (Some (n, r))
            \<and> epgData st n = Some progs
            \<and> st' = st\<lparr>epgData := (epgData st)(n \<mapsto> progs @ [r])\<rparr>)"
  using assms unfolding parse_programme_def
  by (auto split: sum.splits option.splits prod.splits)

lemma programme_loop_index:
  "for_each (parse_programme tz lxml) ps st = Inr st' \<Longrightarrow>
     channelData st' = channelData st \<and>
     (\<forall>t. epgData st' t =
            map_option (\<lambda>l. l @ records_for tz lxml (channelData st) t ps) (epgData st t))"
proof (induction ps arbitrary: st)
  case Nil
  then show ?case by (simp add: records_for_def option.map_ident)
next
  case (Cons p ps)
  from Cons.prems obtain st1 where s1: "parse_programme tz lxml p st = Inr st1"
    and r: "for_each (parse_programme tz lxml) ps st1 = Inr st'"
    by (auto split: sum.splits)
  from parse_programme_cases[OF s1] show ?case
  proof
    assume a: "read_programme tz lxml (channelData st) p = Inr None \<and> st1 = st"
    with Cons.IH[OF r] show ?thesis by (simp add: records_for_def)
  next
    assume "\<exists>n r progs. read_programme tz lxml (channelData st) p = Inr (Some (n, r))
            \<and> epgData st n = Some progs
            \<and> st1 = st\<lparr>epgData := (epgData st)(n \<mapsto> progs @ [r])\<rparr>"
    then obtain n r0 progs where rd: "read_programme tz lxml (channelData st) p = Inr (Some (n, r0))"
      and e: "epgData st n = Some progs"
      and st1: "st1 = st\<lparr>epgData := (epgData st)(n \<mapsto> progs @ [r0])\<rparr>" by blast
    have c: "channelData st1 = channelData st" by (simp add: st1)
    from Cons.IH[OF r] have ih: "channelData st' = channelData st1"
      "\<And>t. epgData st' t = map_option (\<lambda>l. l @ records_for tz lxml (channelData st1) t ps) (epgData st1 t)"
      by auto
    have "\<And>t. epgData st' t =
            map_option (\<lambda>l. l @ records_for tz lxml (channelData st) t (p # ps)) (epgData st t)"
    proof -
      fix t
      show "epgData st' t =
            map_option (\<lambda>l. l @ records_for tz lxml (channelData st) t (p # ps)) (epgData st t)"
      proof (cases "t = n")
        case True
        then show ?thesis using ih(2)[of t] e rd by (simp add: st1 records_for_def)
      next
        case False
        then show ?thesis using ih(2)[of t] rd by (simp add: st1 records_for_def)
      qed
    qed
    with ih(1) c show ?thesis by simp
  qed
qed

lemma parse_channel_cases:
  assumes "parse_channel lxml c st = Inr st'"
  shows "st' = st \<or>
         (\<exists>ch. st' = st\<lparr>channelData := channelData st @ [ch],
                           epgData := (epgData st)(ch_title ch \<mapsto> [])\<rparr>
               \<and> ch_alias ch = clean_channel_name (ch_title ch))"
proof (cases "st' = st")
  case True
  then show ?thesis by simp
next
  case False
  with assms obtain i n where "xc_id c = Some i"
    and "channel_name_of lxml (xc_display_name c) = Inr n"
    and st': "st' = st\<lparr>channelData := channelData st @
                       [\<lparr>ch_id = i, ch_title = n, ch_alias = clean_channel_name n,
                         ch_logo = clean_channel_name n @ ''.png'',
                         ch_icon = icon_of lxml (xc_icon c)\<rparr>],
                     epgData := (epgData st)(n \<mapsto> [])\<rparr>"
    unfolding parse_channel_def by (auto split: if_splits option.splits sum.splits)
  let ?ch = "\<lparr>ch_id = i, ch_title = n, ch_alias = clean_channel_name n,
                         ch_logo = clean_channel_name n @ ''.png'',
                         ch_icon = icon_of lxml (xc_icon c)\<rparr>"
  have "st' = st\<lparr>channelData := channelData st @ [?ch],
                           epgData := (epgData st)(ch_title ?ch \<mapsto> [])\<rparr>
               \<and> ch_alias ?ch = clean_channel_name (ch_title ?ch)"
    using st' by simp
  then show ?thesis by blast
qed

lemma parse_channel_fresh:
  assumes "parse_channel lxml c st = Inr st'" and f: "index_fresh st"
  shows "index_fresh st'"
proof -
  from parse_channel_cases[OF assms(1)] show ?thesis
  proof
    assume "st' = st" with f show ?thesis by simp
  next
    assume "\<exists>ch. st' = st\<lparr>channelData := channelData st @ [ch],
                           epgData := (epgData st)(ch_title ch \<mapsto> [])\<rparr>
               \<and> ch_alias ch = clean_channel_name (ch_title ch)"
    then obtain ch where st': "st' = st\<lparr>channelData := channelData st @ [ch],
                           epgData := (epgData st)(ch_title ch \<mapsto> [])\<rparr>" by blast
    show ?thesis unfolding index_fresh_def
    proof
      fix t
      from f have "epgData st t = (if t \<in> ch_title ` set (channelData st) then Some [] else None)"
        unfolding index_fresh_def by blast
      then show "epgData st' t = (if t \<in> ch_title ` set (channelData st') then Some [] else None)"
        by (simp add: st')
    qed
  qed
qed

lemma channel_loop_fresh:
  "for_each (parse_channel lxml) cs st = Inr st' \<Longrightarrow> index_fresh st \<Longrightarrow> index_fresh st'"
  by (induction cs arbitrary: st) (auto split: sum.splits dest: parse_channel_fresh)

lemma parsed_index:
  assumes "parseXMLData tz lxml cs ps = (Parsed, st)"
  shows "epgData st t =
           (if t \<in> ch_title ` set (channelData st)
            then Some (records_for tz lxml (channelData st) t ps) else None)"
proof -
  from assms obtain st0 where
    c: "for_each (parse_channel lxml) cs \<lparr>channelData = [], epgData = Map.empty\<rparr> = Inr st0"
    and p: "for_each (parse_programme tz lxml) ps st0 = Inr st"
    unfolding parseXMLData_def by (auto split: sum.splits if_splits prod.splits)
  have "index_fresh \<lparr>channelData = [], epgData = Map.empty\<rparr>" by (simp add: index_fresh_def)
  from channel_loop_fresh[OF c this] have f: "index_fresh st0" .
  from programme_loop_index[OF p] have
    "channelData st = channelData st0"
    "epgData st t = map_option (\<lambda>l. l @ records_for tz lxml (channelData st0) t ps) (epgData st0 t)"
    by auto
  with f show ?thesis by (simp add: index_fresh_def)
qed


text \<open>
  Claim C3. A programme element without a start attribute leaves no trace: the parse
  pass gives the same result, index included, as the pass over the document with that
  element taken out.
\<close>

theorem no_start_absent:
  assumes "xp_start p = None"
  shows "parseXMLData tz lxml channel_iter (before @ p # after)
           = parseXMLData tz lxml channel_iter (before @ after)"
proof -
  have "\<And>st. parse_programme tz lxml p st = Inr st"
    using assms by (simp add: parse_programme_skip read_programme_no_start truthy_def)
  then have h: "\<And>st. for_each (parse_programme tz lxml) (before @ p # after) st
                  = for_each (parse_programme tz lxml) (before @ after) st"
    by (rule for_each_skip)
  show ?thesis unfolding parseXMLData_def h by (rule refl)
qed

theorem no_start_absent_witness:
  "parseXMLData 0 True
     [\<lparr>xc_id = Some ''de1'', xc_display_name = Some (Some ''Das Erste''), xc_icon = None\<rparr>]
     ([] @ \<lparr>xp_channel = Some ''de1'', xp_start = None, xp_stop = Some ''20240101210000'',
            xp_title = Some (Some ''News''), xp_desc = None, xp_category = None,
            xp_icon = None\<rparr> # [])
   = parseXMLData 0 True
     [\<lparr>xc_id = Some ''de1'', xc_display_name = Some (Some ''Das Erste''), xc_icon = None\<rparr>]
     ([] @ [])
   \<and> epgData (snd (parseXMLData 0 True
     [\<lparr>xc_id = Some ''de1'', xc_display_name = Some (Some ''Das Erste''), xc_icon = None\<rparr>]
     ([] @ []))) ''Das Erste'' = Some []"
proof -
  let ?p = "\<lparr>xp_channel = Some ''de1'', xp_start = None, xp_stop = Some ''20240101210000'',
            xp_title = Some (Some ''News''), xp_desc = None, xp_category = None,
            xp_icon = None\<rparr>"
  have h: "xp_start ?p = None" by simp
  have e: "epgData (snd (parseXMLData 0 True
     [\<lparr>xc_id = Some ''de1'', xc_display_name = Some (Some ''Das Erste''), xc_icon = None\<rparr>]
     ([] @ []))) ''Das Erste'' = Some []" by code_simp
  from no_start_absent[OF h, of 0 True _ "[]" "[]"] e show ?thesis by blast
qed

text \<open>
  Claim C2, as stated, fails: a programme whose start attribute parses and whose stop
  attribute does not is not stored. The \<^verbatim>\<open>ValueError\<close> of the second
  \<^verbatim>\<open>strptime\<close> is raised inside the same \<^verbatim>\<open>try\<close> block and handled by
  the same \<^verbatim>\<open>continue\<close>.
\<close>

theorem stop_failure_counterexample:
  "strptime_YmdHMS (first_piece ''20240101200000 +0100'') \<noteq> None
   \<and> strptime_YmdHMS (first_piece ''2024-01-01T21:00'') = None
   \<and> fst (parseXMLData 0 True
        [\<lparr>xc_id = Some ''de1'', xc_display_name = Some (Some ''Das Erste''), xc_icon = None\<rparr>]
        [\<lparr>xp_channel = Some ''de1'', xp_start = Some ''20240101200000 +0100'',
          xp_stop = Some ''2024-01-01T21:00'', xp_title = Some (Some ''News''),
          xp_desc = None, xp_category = None, xp_icon = None\<rparr>]) = Parsed
   \<and> epgData (snd (parseXMLData 0 True
        [\<lparr>xc_id = Some ''de1'', xc_display_name = Some (Some ''Das Erste''), xc_icon = None\<rparr>]
        [\<lparr>xp_channel = Some ''de1'', xp_start = Some ''20240101200000 +0100'',
          xp_stop = Some ''2024-01-01T21:00'', xp_title = Some (Some ''News''),
          xp_desc = None, xp_category = None, xp_icon = None\<rparr>])) ''Das Erste'' = Some []"
  by code_simp

text \<open>
  Claim C2, amended. A programme element whose stop attribute is present, non-empty and
  fails to parse is dropped, whether or not its start attribute parses: the loop body
  leaves the state as it was, unless it ends the pass with an exception.
\<close>

theorem unparsable_stop_drops:
  assumes "xp_stop p = Some stop" and "stop \<noteq> []"
    and "strptime_YmdHMS (first_piece stop) = None"
  shows "parse_programme tz lxml p st = Inr st \<or> (\<exists>e. parse_programme tz lxml p st = Inl e)"
proof -
  have t: "truthy (xp_stop p)" using assms(1,2) by (cases stop) (simp_all add: truthy_def)
  have "\<And>s. parse_times tz s (xp_stop p) = None"
    using assms t by (simp add: parse_times_def split: option.splits)
  then have "\<And>n r. read_programme tz lxml (channelData st) p \<noteq> Inr (Some (n, r))"
    unfolding read_programme_def by (auto split: if_splits option.splits sum.splits)
  then show ?thesis
    unfolding parse_programme_def by (auto split: sum.splits option.splits)
qed

theorem unparsable_stop_drops_witness:
  "parse_programme 0 True
     \<lparr>xp_channel = Some ''de1'', xp_start = Some ''20240101200000 +0100'',
       xp_stop = Some ''2024-01-01T21:00'', xp_title = Some (Some ''News''),
       xp_desc = None, xp_category = None, xp_icon = None\<rparr>
     \<lparr>channelData = [\<lparr>ch_id = ''de1'', ch_title = ''Das Erste'', ch_alias = ''daserste'',
                        ch_logo = ''daserste.png'', ch_icon = None\<rparr>],
      epgData = [''Das Erste'' \<mapsto> []]\<rparr>
   = Inr \<lparr>channelData = [\<lparr>ch_id = ''de1'', ch_title = ''Das Erste'', ch_alias = ''daserste'',
                        ch_logo = ''daserste.png'', ch_icon = None\<rparr>],
      epgData = [''Das Erste'' \<mapsto> []]\<rparr>"
proof -
  let ?p = "\<lparr>xp_channel = Some ''de1'', xp_start = Some ''20240101200000 +0100'',
       xp_stop = Some ''2024-01-01T21:00'', xp_title = Some (Some ''News''),
       xp_desc = None, xp_category = None, xp_icon = None\<rparr>"
  let ?st = "\<lparr>channelData = [\<lparr>ch_id = ''de1'', ch_title = ''Das Erste'', ch_alias = ''daserste'',
                        ch_logo = ''daserste.png'', ch_icon = None\<rparr>],
      epgData = [''Das Erste'' \<mapsto> []]\<rparr>"
  have a: "xp_stop ?p = Some ''2024-01-01T21:00''" by simp
  have b: "''2024-01-01T21:00'' \<noteq> []" by simp
  have c: "strptime_YmdHMS (first_piece ''2024-01-01T21:00'') = None" by code_simp
  have d: "\<not> isl (parse_programme 0 True ?p ?st)" by code_simp
  from unparsable_stop_drops[OF a b c, of 0 True ?st] d show ?thesis
    by auto
qed

text \<open>
  Claim C10. When two channels with distinct ids \<open>i1\<close> and \<open>i2\<close> have the same title,
  the index has one entry for that title, holding the records of all programmes that
  resolve to a channel of that title, in document order; a programme that refers to
  \<open>i1\<close> or to \<open>i2\<close> and reaches the \<^verbatim>\<open>append\<close> is stored under that title.
\<close>

theorem same_title_merged:
  assumes parse: "parseXMLData tz lxml cs ps = (Parsed, st)"
    and c1: "find (\<lambda>ch. ch_id ch = i1) (channelData st) = Some c1"
    and c2: "find (\<lambda>ch. ch_id ch = i2) (channelData st) = Some c2"
    and ids: "i1 \<noteq> i2"
    and same: "ch_title c1 = ch_title c2"
  shows "epgData st (ch_title c1) = Some (records_for tz lxml (channelData st) (ch_title c1) ps)
         \<and> (\<forall>p n r. read_programme tz lxml (channelData st) p = Inr (Some (n, r))
               \<longrightarrow> xp_channel p = Some i1 \<or> xp_channel p = Some i2
               \<longrightarrow> n = ch_title c1)"
proof -
  from c1 have m: "c1 \<in> set (channelData st)" by (auto simp: find_Some_iff)
  have 1: "epgData st (ch_title c1) = Some (records_for tz lxml (channelData st) (ch_title c1) ps)"
    using parsed_index[OF parse, of "ch_title c1"] m by simp
  have 2: "\<And>p n r. read_programme tz lxml (channelData st) p = Inr (Some (n, r))
               \<Longrightarrow> xp_channel p = Some i1 \<or> xp_channel p = Some i2 \<Longrightarrow> n = ch_title c1"
  proof -
    fix p n r
    assume rd: "read_programme tz lxml (channelData st) p = Inr (Some (n, r))"
      and x: "xp_channel p = Some i1 \<or> xp_channel p = Some i2"
    from rd obtain ch where f: "find (\<lambda>ch. Some (ch_id ch) = xp_channel p) (channelData st) = Some ch"
      and n: "n = ch_title ch"
      unfolding read_programme_def by (auto split: if_splits option.splits sum.splits)
    from x show "n = ch_title c1"
    proof
      assume "xp_channel p = Some i1"
      with f c1 have "ch = c1" by simp
      with n show ?thesis by simp
    next
      assume "xp_channel p = Some i2"
      with f c2 have "ch = c2" by simp
      with n same show ?thesis by simp
    qed
  qed
  from 1 2 show ?thesis by blast
qed


theorem same_title_merged_witness:
  "epgData (snd (parseXMLData 0 True
      [\<lparr>xc_id = Some ''a'', xc_display_name = Some (Some ''Arte''), xc_icon = None\<rparr>,
       \<lparr>xc_id = Some ''b'', xc_display_name = Some (Some ''Arte''), xc_icon = None\<rparr>]
      [\<lparr>xp_channel = Some ''b'', xp_start = Some ''20240101200000'', xp_stop = None,
        xp_title = Some (Some ''Second''), xp_desc = None, xp_category = None, xp_icon = None\<rparr>,
       \<lparr>xp_channel = Some ''a'', xp_start = Some ''20240101210000'', xp_stop = None,
        xp_title = Some (Some ''First''), xp_desc = None, xp_category = None, xp_icon = None\<rparr>]))
     ''Arte''
   = Some [\<lparr>title = ''Second'', desc = ''Nema opisa'', category = [], icon = None,
            stop_timestamp = None, start_timestamp = 1704139200, start_date = ''20240101''\<rparr>,
           \<lparr>title = ''First'', desc = ''Nema opisa'', category = [], icon = None,
            stop_timestamp = None, start_timestamp = 1704142800, start_date = ''20240101''\<rparr>]"
proof -
  let ?cs = "[\<lparr>xc_id = Some ''a'', xc_display_name = Some (Some ''Arte''), xc_icon = None\<rparr>,
       \<lparr>xc_id = Some ''b'', xc_display_name = Some (Some ''Arte''), xc_icon = None\<rparr>]"
  let ?ps = "[\<lparr>xp_channel = Some ''b'', xp_start = Some ''20240101200000'', xp_stop = None,
        xp_title = Some (Some ''Second''), xp_desc = None, xp_category = None, xp_icon = None\<rparr>,
       \<lparr>xp_channel = Some ''a'', xp_start = Some ''20240101210000'', xp_stop = None,
        xp_title = Some (Some ''First''), xp_desc = None, xp_category = None, xp_icon = None\<rparr>]"
  let ?st = "snd (parseXMLData 0 True ?cs ?ps)"
  let ?c1 = "\<lparr>ch_id = ''a'', ch_title = ''Arte'', ch_alias = ''arte'',
              ch_logo = ''arte.png'', ch_icon = None\<rparr>"
  let ?c2 = "\<lparr>ch_id = ''b'', ch_title = ''Arte'', ch_alias = ''arte'',
              ch_logo = ''arte.png'', ch_icon = None\<rparr>"
  have "fst (parseXMLData 0 True ?cs ?ps) = Parsed" by code_simp
  then have p: "parseXMLData 0 True ?cs ?ps = (Parsed, ?st)" by (simp add: prod_eq_iff)
  have cd: "channelData ?st = [?c1, ?c2]" by code_simp
  have f1: "find (\<lambda>ch. ch_id ch = ''a'') (channelData ?st) = Some ?c1" unfolding cd by simp
  have f2: "find (\<lambda>ch. ch_id ch = ''b'') (channelData ?st) = Some ?c2" unfolding cd by simp
  have ne: "''a'' \<noteq> ''b''" by simp
  have same: "ch_title ?c1 = ch_title ?c2" by simp
  have r: "records_for 0 True [?c1, ?c2] ''Arte'' ?ps =
          [\<lparr>title = ''Second'', desc = ''Nema opisa'', category = [], icon = None,
            stop_timestamp = None, start_timestamp = 1704139200, start_date = ''20240101''\<rparr>,
           \<lparr>title = ''First'', desc = ''Nema opisa'', category = [], icon = None,
            stop_timestamp = None, start_timestamp = 1704142800, start_date = ''20240101''\<rparr>]"
    by code_simp
  from same_title_merged[OF p f1 f2 ne same] have
    "epgData ?st (ch_title ?c1) = Some (records_for 0 True (channelData ?st) (ch_title ?c1) ?ps)"
    by blast
  then show ?thesis unfolding cd using r by simp
qed

section \<open>Properties of the calendar functions\<close>






























section \<open>Properties of the indexer\<close>

lemma map_of_bump:
  "map_of (map (\<lambda>(k, v). if k = d then (k, v @ [e]) else (k, v)) m) k =
     (if k = d then map_option (\<lambda>v. v @ [e]) (map_of m d) else map_of m k)"
  by (induction m) auto

lemma fst_bump:
  "map fst (map (\<lambda>(k, v). if k = d then (k, v @ [e]) else (k, v)) m) = map fst m"
  by (induction m) auto

lemma keys_add_entry:
  "map fst (add_entry d e m) = (if d \<in> set (map fst m) then map fst m else map fst m @ [d])"
proof -
  have "\<And>m'. map fst (map (\<lambda>(k, v). if k = d then (k, v @ [e]) else (k, v)) m') = map fst m'"
    by (rule fst_bump)
  then show ?thesis unfolding add_entry_def Let_def by (simp del: map_map)
qed

lemma map_of_absent: "d \<notin> set (map fst m) \<Longrightarrow> map_of m d = None"
  by (simp add: map_of_eq_None_iff)

lemma lookup_add_entry:
  "lookup_entries (add_entry d e m) k =
     (if k = d then lookup_entries m d @ [e] else lookup_entries m k)"
proof (cases "d \<in> set (map fst m)")
  case True
  then obtain v where "map_of m d = Some v"
    by (metis map_of_eq_None_iff not_Some_eq set_map)
  with True show ?thesis
    by (simp add: add_entry_def lookup_entries_def map_of_bump)
next
  case False
  then have n: "map_of m d = None" by (rule map_of_absent)
  with False show ?thesis
    by (simp add: add_entry_def lookup_entries_def map_of_bump map_add_def split: option.splits)
qed

lemma keys_group_step:
  "set (map fst (group_step tz p m)) =
     set (map fst m) \<union> (if entry_of tz p = None then {} else {start_date p})"
proof (cases "entry_of tz p")
  case None
  then show ?thesis by (simp add: group_step_def)
next
  case (Some e)
  have "set (map fst (add_entry (start_date p) e m)) = set (map fst m) \<union> {start_date p}"
    unfolding keys_add_entry by auto
  then show ?thesis by (simp add: group_step_def Some)
qed

lemma distinct_group_step:
  "distinct (map fst m) \<Longrightarrow> distinct (map fst (group_step tz p m))"
proof (cases "entry_of tz p")
  case None
  then show "distinct (map fst m) \<Longrightarrow> ?thesis" by (simp add: group_step_def)
next
  case (Some e)
  assume "distinct (map fst m)"
  then have "distinct (map fst (add_entry (start_date p) e m))"
    unfolding keys_add_entry by auto
  then show ?thesis by (simp add: group_step_def Some)
qed

lemma lookup_group_step:
  "lookup_entries (group_step tz p m) k = lookup_entries m k @ entries_on tz k [p]"
  by (auto simp: group_step_def lookup_add_entry entries_on_def List.map_filter_simps
           split: option.splits)

lemma entries_on_append:
  "entries_on tz k (xs @ ys) = entries_on tz k xs @ entries_on tz k ys"
  by (simp add: entries_on_def List.map_filter_def)

lemma entries_on_Cons:
  "entries_on tz k (p # ps) = entries_on tz k [p] @ entries_on tz k ps"
  using entries_on_append[of tz k "[p]" ps] by simp

lemma keys_fold:
  "set (map fst (fold (group_step tz) ps m)) =
     set (map fst m) \<union> start_date ` {p \<in> set ps. entry_of tz p \<noteq> None}"
proof (induction ps arbitrary: m)
  case Nil
  then show ?case by simp
next
  case (Cons p ps)
  have "set (map fst (fold (group_step tz) (p # ps) m)) =
          set (map fst (group_step tz p m)) \<union> start_date ` {p \<in> set ps. entry_of tz p \<noteq> None}"
    using Cons.IH[of "group_step tz p m"] by simp
  also have "\<dots> = set (map fst m) \<union> start_date ` {q \<in> set (p # ps). entry_of tz q \<noteq> None}"
    unfolding keys_group_step by auto
  finally show ?case .
qed

lemma distinct_fold:
  "distinct (map fst m) \<Longrightarrow> distinct (map fst (fold (group_step tz) ps m))"
proof (induction ps arbitrary: m)
  case Nil
  then show ?case by simp
next
  case (Cons p ps)
  from Cons.prems have "distinct (map fst (group_step tz p m))" by (rule distinct_group_step)
  from Cons.IH[OF this] show ?case by simp
qed

lemma lookup_fold:
  "lookup_entries (fold (group_step tz) ps m) k = lookup_entries m k @ entries_on tz k ps"
proof (induction ps arbitrary: m)
  case Nil
  then show ?case by (simp add: entries_on_def List.map_filter_simps)
next
  case (Cons p ps)
  show ?case using Cons.IH[of "group_step tz p m"] entries_on_Cons[of tz k p ps]
    by (simp add: lookup_group_step)
qed

lemma emit_blocks_ok:
  assumes "\<forall>d \<in> set ds. d \<in> set (map fst m) \<and> strptime_Ymd d \<noteq> None"
  shows "emit_blocks m ds =
           Inr (concat (map (\<lambda>d. case strptime_Ymd d of None \<Rightarrow> []
                                  | Some dt \<Rightarrow> separator_line dt # lookup_entries m d) ds))"
  using assms
proof (induction ds)
  case Nil
  then show ?case by simp
next
  case (Cons d ds)
  from Cons.prems obtain dt where dt: "strptime_Ymd d = Some dt" by auto
  from Cons.prems have "map_of m d \<noteq> None" by (simp add: map_of_eq_None_iff)
  then obtain v where v: "map_of m d = Some v" by blast
  from Cons.IH Cons.prems show ?case
    by (simp add: dt v lookup_entries_def separator_line_def)
qed

lemma emit_blocks_bad:
  assumes "\<exists>d \<in> set ds. strptime_Ymd d = None" "\<forall>d \<in> set ds. d \<in> set (map fst m)"
  shows "emit_blocks m ds = Inl ValueError"
  using assms
proof (induction ds)
  case Nil
  then show ?case by simp
next
  case (Cons d ds)
  from Cons.prems have "map_of m d \<noteq> None" by (simp add: map_of_eq_None_iff)
  then obtain v where v: "map_of m d = Some v" by blast
  show ?case
  proof (cases "strptime_Ymd d")
    case None
    then show ?thesis by simp
  next
    case (Some dt)
    with Cons.prems have "\<exists>d \<in> set ds. strptime_Ymd d = None" by auto
    with Cons.IH Cons.prems have "emit_blocks m ds = Inl ValueError" by simp
    then show ?thesis by (simp add: Some v)
  qed
qed

lemma sorted_keys_eq:
  assumes "distinct ks" and "set ks = set (map start_date (filter (renderable tz) ps))"
  shows "sort ks = date_keys tz ps"
proof -
  have "sorted (sort ks)" "distinct (sort ks)" "set (sort ks) = set ks"
    using assms(1) by simp_all
  moreover have "sorted (date_keys tz ps)" "distinct (date_keys tz ps)"
    "set (date_keys tz ps) = set ks"
    using assms(2) by (simp_all add: date_keys_def)
  ultimately show ?thesis
    by (metis sorted_distinct_set_unique)
qed

lemma entries_on_filter:
  "entries_on tz d ps =
     List.map_filter (entry_of tz) (filter (\<lambda>p. start_date p = d \<and> renderable tz p) ps)"
  by (induction ps) (auto simp: entries_on_def List.map_filter_simps renderable_def split: option.splits)

lemma concat_blocks_eq:
  "concat (map (\<lambda>d. case strptime_Ymd d of None \<Rightarrow> []
                    | Some dt \<Rightarrow> separator_line dt # entries_on tz d sp) ds)
   = concat (map (render_block tz)
       (map (\<lambda>d. (d, filter (\<lambda>p. start_date p = d \<and> renderable tz p) sp)) ds))"
  by (induction ds) (auto simp: render_block_def entries_on_filter split: option.splits)

lemma getEPGFromData_blocks:
  assumes ne: "get_or_empty epg channel_name \<noteq> []"
  shows "getEPGFromData tz epg channel_name =
     (let ps = get_or_empty epg channel_name; bs = display_blocks tz ps
      in if \<exists>d \<in> set (map fst bs). strptime_Ymd d = None then Inl ValueError
         else if bs = [] then Inr [''No valid EPG data for channel: '' @ channel_name]
         else Inr (concat (map (render_block tz) bs)))"
proof -
  define ps where "ps = get_or_empty epg channel_name"
  define sp where "sp = sort_key start_timestamp ps"
  define m where "m = fold (group_step tz) sp []"
  have keys: "set (map fst m) = set (map start_date (filter (renderable tz) ps))"
    unfolding m_def keys_fold sp_def by (auto simp: renderable_def)
  have dist: "distinct (map fst m)" unfolding m_def by (rule distinct_fold) simp
  have srt: "sort (map fst m) = date_keys tz ps" using sorted_keys_eq[OF dist keys] .
  have look: "\<And>d. lookup_entries m d = entries_on tz d sp"
    unfolding m_def lookup_fold by (simp add: lookup_entries_def)
  have mem: "\<forall>d \<in> set (date_keys tz ps). d \<in> set (map fst m)"
    using srt by (metis set_sort)
  have fstbs: "map fst (display_blocks tz ps) = date_keys tz ps"
    by (simp add: display_blocks_def comp_def)
  have g: "getEPGFromData tz epg channel_name =
     (case emit_blocks m (date_keys tz ps) of Inl e \<Rightarrow> Inl e
      | Inr result \<Rightarrow> if result = [] then Inr [''No valid EPG data for channel: '' @ channel_name]
                      else Inr result)"
    using ne unfolding getEPGFromData_def Let_def ps_def[symmetric] sp_def[symmetric]
      m_def[symmetric] srt by simp
  show ?thesis
  proof (cases "\<exists>d \<in> set (date_keys tz ps). strptime_Ymd d = None")
    case True
    from emit_blocks_bad[OF True mem] show ?thesis
      unfolding g Let_def ps_def[symmetric] fstbs using True by simp
  next
    case False
    then have ok: "\<forall>d \<in> set (date_keys tz ps). d \<in> set (map fst m) \<and> strptime_Ymd d \<noteq> None"
      using mem by auto
    have e: "emit_blocks m (date_keys tz ps) = Inr (concat (map (render_block tz) (display_blocks tz ps)))"
      unfolding emit_blocks_ok[OF ok] look concat_blocks_eq display_blocks_def sp_def by simp
    have nonempty: "display_blocks tz ps \<noteq> [] \<Longrightarrow> concat (map (render_block tz) (display_blocks tz ps)) \<noteq> []"
    proof -
      assume "display_blocks tz ps \<noteq> []"
      then obtain b bs where b: "display_blocks tz ps = b # bs" by (cases "display_blocks tz ps") auto
      then have "fst b \<in> set (date_keys tz ps)" using fstbs by (metis list.set_intros(1) list.simps(9))
      with False obtain dt where "strptime_Ymd (fst b) = Some dt" by auto
      then show ?thesis by (simp add: b render_block_def)
    qed
    show ?thesis
      unfolding g e Let_def ps_def[symmetric] fstbs using False nonempty by auto
  qed
qed

section \<open>Properties of the stored programmes\<close>










section \<open>Properties of the display lines and of the cursor\<close>

lemma set_date_keys:
  "set (date_keys tz ps) = start_date ` {p \<in> set ps. renderable tz p}"
  by (auto simp: date_keys_def)

lemma fst_display_blocks: "map fst (display_blocks tz ps) = date_keys tz ps"
  by (simp add: display_blocks_def comp_def)






lemma find_Some_mem: "find P xs = Some x \<Longrightarrow> P x \<and> x \<in> set xs"
  by (induction xs) (auto split: if_splits)

lemma first_index_bound: "first_index P lines = Some i \<Longrightarrow> i < length lines \<and> P (lines ! i)"
proof -
  assume "first_index P lines = Some i"
  then obtain l where "find (\<lambda>(i, line). P line) (enumerate 0 lines) = Some (i, l)"
    unfolding first_index_def by auto
  from find_Some_mem[OF this] have "P l" "(i, l) \<in> set (enumerate 0 lines)"
    by auto
  then show ?thesis by (auto simp: in_set_enumerate_eq)
qed











text \<open>
  Claim C6, as stated, fails: a programme without a description element is stored with the
  fallback description \<^verbatim>\<open>Nema opisa\<close>, and its entry has the description line, since
  the test is \<^verbatim>\<open>if program['desc']\<close> and the fallback is not the empty string.
\<close>

theorem default_description_counterexample:
  "xp_desc \<lparr>xp_channel = Some ''de1'', xp_start = Some ''20240101200000'',
        xp_stop = Some ''20240101210000'', xp_title = Some (Some ''News''),
        xp_desc = None, xp_category = None, xp_icon = None\<rparr> = None
   \<and> map_option (map desc) (epgData (snd (parseXMLData 0 True
      [\<lparr>xc_id = Some ''de1'', xc_display_name = Some (Some ''Das Erste''), xc_icon = None\<rparr>]
      [\<lparr>xp_channel = Some ''de1'', xp_start = Some ''20240101200000'',
        xp_stop = Some ''20240101210000'', xp_title = Some (Some ''News''),
        xp_desc = None, xp_category = None, xp_icon = None\<rparr>])) ''Das Erste'')
     = Some [''Nema opisa'']
   \<and> getEPGFromData 0 (epgData (snd (parseXMLData 0 True
      [\<lparr>xc_id = Some ''de1'', xc_display_name = Some (Some ''Das Erste''), xc_icon = None\<rparr>]
      [\<lparr>xp_channel = Some ''de1'', xp_start = Some ''20240101200000'',
        xp_stop = Some ''20240101210000'', xp_title = Some (Some ''News''),
        xp_desc = None, xp_category = None, xp_icon = None\<rparr>])))
      ''Das Erste''
     = Inr [''--- 01.01.2024 ---'', ''20:00 - News ()'' @ [CHR 0x0A] @ ''  Nema opisa'']"
  by code_simp

text \<open>
  Claim C6, amended. The entry of a programme is among the display lines; it is the
  formatted local start time, the title and the category, followed by a line break and the
  indented description exactly when the stored description is not the empty string (the
  fallback description included).
\<close>

theorem entry_line_of_programme:
  assumes lines: "getEPGFromData tz epg channel_name = Inr lines"
    and p: "p \<in> set (get_or_empty epg channel_name)"
    and dt: "fromtimestamp tz (start_timestamp p) = Some dt"
  shows "(strftime_HM dt @ '' - '' @ title p @ '' ('' @ category p @ '')''
            @ (if desc p = [] then [] else CHR 0x0A # ''  '' @ desc p)) \<in> set lines"
proof -
  let ?ps = "get_or_empty epg channel_name"
  let ?e = "strftime_HM dt @ '' - '' @ title p @ '' ('' @ category p @ '')''
            @ (if desc p = [] then [] else CHR 0x0A # ''  '' @ desc p)"
  let ?d = "start_date p"
  let ?qs = "filter (\<lambda>q. start_date q = ?d \<and> renderable tz q) (sort_key start_timestamp ?ps)"
  have e: "entry_of tz p = Some ?e" by (simp add: entry_of_def dt)
  then have r: "renderable tz p" by (simp add: renderable_def)
  from p have ne: "?ps \<noteq> []" by auto
  from p r have d: "?d \<in> set (date_keys tz ?ps)" unfolding set_date_keys by blast
  then have b: "(?d, ?qs) \<in> set (display_blocks tz ?ps)" unfolding display_blocks_def by auto
  then have bne: "display_blocks tz ?ps \<noteq> []" by auto
  from lines have ok: "\<not> (\<exists>d \<in> set (map fst (display_blocks tz ?ps)). strptime_Ymd d = None)"
    and l: "lines = concat (map (render_block tz) (display_blocks tz ?ps))"
    unfolding getEPGFromData_blocks[OF ne] Let_def using bne by (auto split: if_splits)
  from ok d obtain x where x: "strptime_Ymd ?d = Some x" unfolding fst_display_blocks by auto
  from p r have "p \<in> set ?qs" by simp
  with e have "?e \<in> set (List.map_filter (entry_of tz) ?qs)"
    unfolding List.map_filter_def by force
  then have "?e \<in> set (render_block tz (?d, ?qs))" by (simp add: render_block_def x)
  with b show ?thesis unfolding l by auto
qed

theorem entry_line_of_programme_witness:
  "(''20:00 - News (Info)'' @ [CHR 0x0A] @ ''  Nema opisa'')
     \<in> set [''--- 01.01.2024 ---'', ''20:00 - News (Info)'' @ [CHR 0x0A] @ ''  Nema opisa'',
             ''21:00 - Film ()'']"
proof -
  let ?p = "\<lparr>title = ''News'', desc = ''Nema opisa'', category = ''Info'', icon = None,
             stop_timestamp = Some 1704142800, start_timestamp = 1704139200,
             start_date = ''20240101''\<rparr>"
  let ?q = "\<lparr>title = ''Film'', desc = '''', category = '''', icon = None,
             stop_timestamp = None, start_timestamp = 1704142800,
             start_date = ''20240101''\<rparr>"
  let ?epg = "[''Das Erste'' \<mapsto> [?q, ?p]]"
  let ?dt = "\<lparr>dt_year = 2024, dt_month = 1, dt_day = 1, dt_hour = 20, dt_minute = 0, dt_second = 0\<rparr>"
  have l: "getEPGFromData 0 ?epg ''Das Erste'' =
     Inr [''--- 01.01.2024 ---'', ''20:00 - News (Info)'' @ [CHR 0x0A] @ ''  Nema opisa'',
             ''21:00 - Film ()'']" by code_simp
  have m: "?p \<in> set (get_or_empty ?epg ''Das Erste'')" by (simp add: get_or_empty_def)
  have t: "fromtimestamp 0 (start_timestamp ?p) = Some ?dt" by code_simp
  have h: "strftime_HM ?dt = ''20:00''" by code_simp
  from entry_line_of_programme[OF l m t] show ?thesis unfolding h by simp
qed

section \<open>Properties of the resolver\<close>

lemma best_so_far_step:
  assumes "best_so_far now current_date S acc"
  shows "best_so_far now current_date (insert x S) (active_step now current_date x acc)"
proof (cases acc)
  case (Pair m c)
  show ?thesis
  proof (cases m)
    case None
    with assms Pair have c: "c = None" and n: "\<forall>q \<in> S. \<not> is_active now current_date q"
      by (auto simp: best_so_far_def split: option.splits)
    show ?thesis using n
      by (simp add: Pair None c active_step_def best_so_far_def Let_def)
  next
    case (Some mv)
    with assms Pair obtain cv where c: "c = Some cv" and i: "cv \<in> S" "is_active now current_date cv"
      "mv = \<bar>now - real_of_int (start_timestamp cv)\<bar>"
      "\<forall>q \<in> S. is_active now current_date q \<longrightarrow> mv \<le> \<bar>now - real_of_int (start_timestamp q)\<bar>"
      by (auto simp: best_so_far_def split: option.splits)
    show ?thesis
    proof (cases "is_active now current_date x \<and> \<bar>now - real_of_int (start_timestamp x)\<bar> < mv")
      case True
      then have "active_step now current_date x acc
                   = (Some \<bar>now - real_of_int (start_timestamp x)\<bar>, Some x)"
        by (simp add: Pair Some c active_step_def Let_def)
      moreover have "\<forall>q \<in> insert x S. is_active now current_date q \<longrightarrow>
           \<bar>now - real_of_int (start_timestamp x)\<bar> \<le> \<bar>now - real_of_int (start_timestamp q)\<bar>"
        using True i(4) by fastforce
      ultimately show ?thesis using True by (simp add: best_so_far_def)
    next
      case False
      then have "active_step now current_date x acc = (Some mv, Some cv)"
        by (auto simp: Pair Some c active_step_def Let_def)
      moreover have "\<forall>q \<in> insert x S. is_active now current_date q \<longrightarrow>
           mv \<le> \<bar>now - real_of_int (start_timestamp q)\<bar>"
        using False i(4) by fastforce
      ultimately show ?thesis using i by (simp add: best_so_far_def)
    qed
  qed
qed

lemma best_so_far_fold:
  "best_so_far now current_date S acc \<Longrightarrow>
     best_so_far now current_date (S \<union> set xs) (fold (active_step now current_date) xs acc)"
proof (induction xs arbitrary: S acc)
  case Nil
  then show ?case by simp
next
  case (Cons x xs)
  from Cons.IH[OF best_so_far_step[OF Cons.prems, of x]] show ?case by simp
qed

lemma find_current_best:
  "best_so_far now current_date (set epglist)
     (fold (active_step now current_date) (sort_key start_timestamp epglist) (None, None))"
proof -
  have "best_so_far now current_date {} (None, None)" by (simp add: best_so_far_def)
  from best_so_far_fold[OF this, of "sort_key start_timestamp epglist"] show ?thesis by simp
qed

lemma find_current_None:
  "(find_current now current_date epglist = None)
     = (\<forall>q \<in> set epglist. \<not> is_active now current_date q)"
  using find_current_best[of now current_date epglist]
  unfolding find_current_def best_so_far_def
  by (auto split: prod.splits option.splits)

lemma find_current_Some:
  assumes "find_current now current_date epglist = Some c"
  shows "c \<in> set epglist \<and> is_active now current_date c
         \<and> (\<forall>q \<in> set epglist. is_active now current_date q \<longrightarrow>
               \<bar>now - real_of_int (start_timestamp c)\<bar> \<le> \<bar>now - real_of_int (start_timestamp q)\<bar>)"
  using find_current_best[of now current_date epglist] assms
  unfolding find_current_def best_so_far_def
  by (auto split: prod.splits option.splits)

lemma is_active_iff:
  assumes "0 < now"
  shows "is_active now current_date p =
           (start_date p = current_date \<and>
            (\<exists>stop. stop_timestamp p = Some stop
                    \<and> real_of_int (start_timestamp p) \<le> now \<and> now \<le> real_of_int stop))"
  using assms unfolding is_active_def by (auto split: option.splits)

lemma line_matches_D:
  assumes "line_matches tz c line"
  shows "line_title line = Some (title c)
         \<and> (\<exists>time_str t. line_time_str line = Some time_str
                \<and> line_time tz c time_str = Some t
                \<and> \<bar>t - start_timestamp c\<bar> < 60)"
  using assms unfolding line_matches_def
  by (auto split: if_splits option.splits)

text \<open>
  Claim C1. At any time after the epoch, the first loop considers exactly the programmes
  whose start date is today's, whose stop timestamp is present and whose interval from
  start to stop contains \<^verbatim>\<open>now\<close>. It finds none when there is none, and otherwise one
  whose distance from \<^verbatim>\<open>now\<close> to its start is least. The step takes a line as the line
  of that programme only if the title read from the line is the title of the programme and
  the timestamp rebuilt from the time read from the line is less than 60 seconds from the
  stored start timestamp. (\<^verbatim>\<open>now\<close> is \<^verbatim>\<open>time.time()\<close>, which is positive;
  the hypothesis matters only for a stop timestamp of 0, which
  \<^verbatim>\<open>if stop_time and ...\<close> takes for a missing one.)
\<close>

theorem active_match_step:
  assumes "0 < now"
  shows "(\<forall>p. is_active now current_date p =
                (start_date p = current_date \<and>
                 (\<exists>stop. stop_timestamp p = Some stop
                    \<and> real_of_int (start_timestamp p) \<le> now \<and> now \<le> real_of_int stop)))
       \<and> ((find_current now current_date epglist = None)
             = (\<forall>q \<in> set epglist. \<not> is_active now current_date q))
       \<and> (\<forall>c. find_current now current_date epglist = Some c \<longrightarrow>
               c \<in> set epglist \<and> is_active now current_date c
             \<and> (\<forall>q \<in> set epglist. is_active now current_date q \<longrightarrow>
                   \<bar>now - real_of_int (start_timestamp c)\<bar>
                     \<le> \<bar>now - real_of_int (start_timestamp q)\<bar>))
       \<and> (\<forall>i. active_match tz epglist now current_date lines = Some i \<longrightarrow>
               (\<exists>c. find_current now current_date epglist = Some c
                  \<and> i < length lines
                  \<and> line_title (lines ! i) = Some (title c)
                  \<and> (\<exists>time_str t. line_time_str (lines ! i) = Some time_str
                        \<and> line_time tz c time_str = Some t
                        \<and> \<bar>t - start_timestamp c\<bar> < 60)))"
proof -
  have 1: "\<forall>p. is_active now current_date p =
                (start_date p = current_date \<and>
                 (\<exists>stop. stop_timestamp p = Some stop
                    \<and> real_of_int (start_timestamp p) \<le> now \<and> now \<le> real_of_int stop))"
    using is_active_iff[OF assms] by blast
  have 3: "\<forall>c. find_current now current_date epglist = Some c \<longrightarrow>
               c \<in> set epglist \<and> is_active now current_date c
             \<and> (\<forall>q \<in> set epglist. is_active now current_date q \<longrightarrow>
                   \<bar>now - real_of_int (start_timestamp c)\<bar>
                     \<le> \<bar>now - real_of_int (start_timestamp q)\<bar>)"
    using find_current_Some by blast
  have 4: "\<forall>i. active_match tz epglist now current_date lines = Some i \<longrightarrow>
               (\<exists>c. find_current now current_date epglist = Some c
                  \<and> i < length lines
                  \<and> line_title (lines ! i) = Some (title c)
                  \<and> (\<exists>time_str t. line_time_str (lines ! i) = Some time_str
                        \<and> line_time tz c time_str = Some t
                        \<and> \<bar>t - start_timestamp c\<bar> < 60))"
  proof (intro allI impI)
    fix i assume "active_match tz epglist now current_date lines = Some i"
    then obtain c where c: "find_current now current_date epglist = Some c"
      and f: "first_index (line_matches tz c) lines = Some i"
      unfolding active_match_def by (auto split: option.splits)
    from first_index_bound[OF f] have b: "i < length lines" "line_matches tz c (lines ! i)" by auto
    from line_matches_D[OF b(2)] c b(1)
    show "\<exists>c. find_current now current_date epglist = Some c
                  \<and> i < length lines
                  \<and> line_title (lines ! i) = Some (title c)
                  \<and> (\<exists>time_str t. line_time_str (lines ! i) = Some time_str
                        \<and> line_time tz c time_str = Some t
                        \<and> \<bar>t - start_timestamp c\<bar> < 60)" by blast
  qed
  from 1 find_current_None[of now current_date epglist] 3 4 show ?thesis by blast
qed

theorem active_match_step_witness:
  "(0::real) < 1704141000
   \<and> active_match 0
        [\<lparr>title = ''Film'', desc = '''', category = '''', icon = None,
          stop_timestamp = None, start_timestamp = 1704142800, start_date = ''20240101''\<rparr>,
         \<lparr>title = ''News'', desc = ''Nema opisa'', category = ''Info'', icon = None,
          stop_timestamp = Some 1704142800, start_timestamp = 1704139200,
          start_date = ''20240101''\<rparr>]
        1704141000 ''20240101''
        [''--- 01.01.2024 ---'', ''20:00 - News (Info)'' @ [CHR 0x0A] @ ''  Nema opisa'',
         ''21:00 - Film ()''] = Some 1
   \<and> (\<exists>c. find_current 1704141000 ''20240101''
        [\<lparr>title = ''Film'', desc = '''', category = '''', icon = None,
          stop_timestamp = None, start_timestamp = 1704142800, start_date = ''20240101''\<rparr>,
         \<lparr>title = ''News'', desc = ''Nema opisa'', category = ''Info'', icon = None,
          stop_timestamp = Some 1704142800, start_timestamp = 1704139200,
          start_date = ''20240101''\<rparr>] = Some c
        \<and> line_title ([''--- 01.01.2024 ---'',
               ''20:00 - News (Info)'' @ [CHR 0x0A] @ ''  Nema opisa'',
               ''21:00 - Film ()''] ! 1) = Some (title c))"
proof -
  let ?ps = "[\<lparr>title = ''Film'', desc = '''', category = '''', icon = None,
          stop_timestamp = None, start_timestamp = 1704142800, start_date = ''20240101''\<rparr>,
         \<lparr>title = ''News'', desc = ''Nema opisa'', category = ''Info'', icon = None,
          stop_timestamp = Some 1704142800, start_timestamp = 1704139200,
          start_date = ''20240101''\<rparr>]"
  let ?lines = "[''--- 01.01.2024 ---'', ''20:00 - News (Info)'' @ [CHR 0x0A] @ ''  Nema opisa'',
         ''21:00 - Film ()'']"
  have h: "(0::real) < 1704141000" by simp
  have a: "active_match 0 ?ps 1704141000 ''20240101'' ?lines = Some 1" by code_simp
  from active_match_step[OF h, of "''20240101''" ?ps 0 ?lines] a h show ?thesis by blast
qed

lemma last_index_snoc:
  "last_index P (lines @ [l]) = (if P l then Some (length lines) else last_index P lines)"
  by (simp add: last_index_def enumerate_append_eq)

lemma last_index_None: "(last_index P lines = None) = (\<forall>l \<in> set lines. \<not> P l)"
  by (induction lines rule: rev_induct) (auto simp: last_index_snoc, simp add: last_index_def)

lemma last_index_is_last:
  assumes "i < length lines" "P (lines ! i)" "\<forall>j. i < j \<and> j < length lines \<longrightarrow> \<not> P (lines ! j)"
  shows "last_index P lines = Some i"
  using assms
proof (induction lines rule: rev_induct)
  case Nil
  then show ?case by simp
next
  case (snoc l lines)
  show ?case
  proof (cases "i = length lines")
    case True
    with snoc.prems(2) show ?thesis by (simp add: last_index_snoc)
  next
    case False
    with snoc.prems(1) have i: "i < length lines" by simp
    from snoc.prems(3) i have nl: "\<not> P l"
      by (metis length_append_singleton lessI nth_append_length)
    have "\<forall>j. i < j \<and> j < length lines \<longrightarrow> \<not> P (lines ! j)"
      using snoc.prems(3) by (metis length_append_singleton less_Suc_eq nth_append)
    moreover have "P (lines ! i)" using snoc.prems(2) i by (simp add: nth_append)
    ultimately have "last_index P lines = Some i" using snoc.IH i by blast
    with nl show ?thesis by (simp add: last_index_snoc)
  qed
qed

text \<open>
  Claim C7, as stated, fails. The loop that selects the last valid line is the
  \<^verbatim>\<open>else\<close> branch of \<^verbatim>\<open>if future_programs\<close>: it does not run when a
  programme of today or later exists, even if no line matches that programme. Here the
  title contains the separator \<^verbatim>\<open>" - "\<close>, so the title read back from the line is only
  \<^verbatim>\<open>A\<close>; the cursor stays at 0, while the last valid line is line 1.
\<close>

theorem fallback_counterexample:
  "find_current 1704141000 ''20240101''
     [\<lparr>title = ''A - B'', desc = ''Nema opisa'', category = '''', icon = None,
       stop_timestamp = None, start_timestamp = 1704146400, start_date = ''20240101''\<rparr>] = None
   \<and> future_programs ''20240101''
     [\<lparr>title = ''A - B'', desc = ''Nema opisa'', category = '''', icon = None,
       stop_timestamp = None, start_timestamp = 1704146400, start_date = ''20240101''\<rparr>]
     = [\<lparr>title = ''A - B'', desc = ''Nema opisa'', category = '''', icon = None,
       stop_timestamp = None, start_timestamp = 1704146400, start_date = ''20240101''\<rparr>]
   \<and> getEPGFromData 0 [''Das Erste'' \<mapsto>
     [\<lparr>title = ''A - B'', desc = ''Nema opisa'', category = '''', icon = None,
       stop_timestamp = None, start_timestamp = 1704146400, start_date = ''20240101''\<rparr>]]
       ''Das Erste''
     = Inr [''--- 01.01.2024 ---'', ''22:00 - A - B ()'' @ [CHR 0x0A] @ ''  Nema opisa'']
   \<and> first_index (line_matches 0
       \<lparr>title = ''A - B'', desc = ''Nema opisa'', category = '''', icon = None,
       stop_timestamp = None, start_timestamp = 1704146400, start_date = ''20240101''\<rparr>)
       [''--- 01.01.2024 ---'', ''22:00 - A - B ()'' @ [CHR 0x0A] @ ''  Nema opisa''] = None
   \<and> last_index (\<lambda>line. \<not> skip_line line)
       [''--- 01.01.2024 ---'', ''22:00 - A - B ()'' @ [CHR 0x0A] @ ''  Nema opisa''] = Some 1
   \<and> updateEPGAndPicon 0 [''Das Erste'' \<mapsto>
     [\<lparr>title = ''A - B'', desc = ''Nema opisa'', category = '''', icon = None,
       stop_timestamp = None, start_timestamp = 1704146400, start_date = ''20240101''\<rparr>]]
       ''Das Erste'' 1704141000 ''20240101''
     = Inr ([''--- 01.01.2024 ---'', ''22:00 - A - B ()'' @ [CHR 0x0A] @ ''  Nema opisa''], Some 0)"
  by code_simp

text \<open>
  Claim C7, amended. When the active-match step yields no line: if no programme of the
  channel has a start date of today or later, the resolver selects the last line that the
  loops do not skip (0 when they skip every line); if there are such programmes and no line
  matches the earliest of them, the cursor stays at 0.
\<close>

theorem fallback_without_future_programmes:
  assumes "active_match tz epglist now current_date lines = None"
  shows "(future_programs current_date epglist = [] \<longrightarrow>
            (\<forall>i. i < length lines \<and> \<not> skip_line (lines ! i)
                  \<and> (\<forall>j. i < j \<and> j < length lines \<longrightarrow> skip_line (lines ! j))
               \<longrightarrow> resolve_index tz epglist now current_date lines = i)
          \<and> ((\<forall>l \<in> set lines. skip_line l)
               \<longrightarrow> resolve_index tz epglist now current_date lines = 0))
       \<and> (\<forall>first others.
             future_programs current_date epglist = first # others
             \<and> first_index (line_matches tz (min_by start_timestamp first others)) lines = None
            \<longrightarrow> resolve_index tz epglist now current_date lines = 0)"
proof -
  have 1: "future_programs current_date epglist = [] \<longrightarrow>
            (\<forall>i. i < length lines \<and> \<not> skip_line (lines ! i)
                  \<and> (\<forall>j. i < j \<and> j < length lines \<longrightarrow> skip_line (lines ! j))
               \<longrightarrow> resolve_index tz epglist now current_date lines = i)
          \<and> ((\<forall>l \<in> set lines. skip_line l)
               \<longrightarrow> resolve_index tz epglist now current_date lines = 0)"
  proof
    assume f: "future_programs current_date epglist = []"
    have r: "resolve_index tz epglist now current_date lines =
          (case last_index (\<lambda>line. \<not> skip_line line) lines of Some i \<Rightarrow> i | None \<Rightarrow> 0)"
      using assms f by (simp add: resolve_index_def)
    have a: "\<forall>i. i < length lines \<and> \<not> skip_line (lines ! i)
              \<and> (\<forall>j. i < j \<and> j < length lines \<longrightarrow> skip_line (lines ! j))
            \<longrightarrow> resolve_index tz epglist now current_date lines = i"
    proof (intro allI impI)
      fix i assume "i < length lines \<and> \<not> skip_line (lines ! i)
              \<and> (\<forall>j. i < j \<and> j < length lines \<longrightarrow> skip_line (lines ! j))"
      then have "last_index (\<lambda>line. \<not> skip_line line) lines = Some i"
        by (intro last_index_is_last) auto
      then show "resolve_index tz epglist now current_date lines = i" by (simp add: r)
    qed
    have b: "(\<forall>l \<in> set lines. skip_line l)
            \<longrightarrow> resolve_index tz epglist now current_date lines = 0"
    proof
      assume "\<forall>l \<in> set lines. skip_line l"
      then have "last_index (\<lambda>line. \<not> skip_line line) lines = None"
        by (simp add: last_index_None)
      then show "resolve_index tz epglist now current_date lines = 0" by (simp add: r)
    qed
    from a b show "(\<forall>i. i < length lines \<and> \<not> skip_line (lines ! i)
                  \<and> (\<forall>j. i < j \<and> j < length lines \<longrightarrow> skip_line (lines ! j))
               \<longrightarrow> resolve_index tz epglist now current_date lines = i)
          \<and> ((\<forall>l \<in> set lines. skip_line l)
               \<longrightarrow> resolve_index tz epglist now current_date lines = 0)" by blast
  qed
  have 2: "\<forall>first others.
             future_programs current_date epglist = first # others
             \<and> first_index (line_matches tz (min_by start_timestamp first others)) lines = None
            \<longrightarrow> resolve_index tz epglist now current_date lines = 0"
    using assms by (simp add: resolve_index_def)
  from 1 2 show ?thesis by blast
qed

theorem fallback_without_future_programmes_witness:
  "resolve_index 0
     [\<lparr>title = ''News'', desc = ''Nema opisa'', category = [], icon = None,
       stop_timestamp = Some 1704142800, start_timestamp = 1704139200,
       start_date = ''20240101''\<rparr>]
     1704200000 ''20240102''
     [''--- 01.01.2024 ---'', ''20:00 - News ()'' @ [CHR 0x0A] @ ''  Nema opisa''] = 1"
proof -
  let ?ps = "[\<lparr>title = ''News'', desc = ''Nema opisa'', category = [], icon = None,
       stop_timestamp = Some 1704142800, start_timestamp = 1704139200,
       start_date = ''20240101''\<rparr>]"
  let ?lines = "[''--- 01.01.2024 ---'', ''20:00 - News ()'' @ [CHR 0x0A] @ ''  Nema opisa'']"
  have a: "active_match 0 ?ps 1704200000 ''20240102'' ?lines = None" by code_simp
  have f: "future_programs ''20240102'' ?ps = []" by code_simp
  have s: "\<not> skip_line (?lines ! 1)" by code_simp
  have "(1::nat) < length ?lines \<and> \<not> skip_line (?lines ! 1)
          \<and> (\<forall>j. 1 < j \<and> j < length ?lines \<longrightarrow> skip_line (?lines ! j))"
    using s by auto
  with fallback_without_future_programmes[OF a] f show ?thesis by blast
qed

section \<open>Properties of the fetcher\<close>





end
